theory Spec2Isabelle
  imports Complex_Main "HOL-Library.Log_Nat" "HOL-Library.Product_Lexorder"
begin

section \<open>Values, errors and data frames\<close>

text \<open>
  The program (\<^verbatim>\<open>db_validation.py\<close>) reads two CSV extracts with
  \<^verbatim>\<open>dtype=object\<close>, so a cell is a Python \<^verbatim>\<open>str\<close> or the float
  \<^verbatim>\<open>np.nan\<close>; the rules \<^verbatim>\<open>cast_int\<close> and \<^verbatim>\<open>round_rule\<close> put
  Python \<^verbatim>\<open>int\<close> and \<^verbatim>\<open>float\<close> objects into cells.  A float is an
  IEEE binary64 number: a finite one is kept as the rational it denotes, with negative
  zero, the infinities and NaN as values of their own.  Strings are lists of HOL
  characters read as ASCII text.
\<close>

datatype pyfloat = Fin rat | NegZero | PosInf | NegInf | NaN

datatype pyval = StrV string | IntV int | FloatV pyfloat

datatype error =
  KeyError | ValueError | AttributeError | TypeError | ZeroDivisionError | OverflowError

text \<open>
  A pandas \<^verbatim>\<open>DataFrame\<close>: the column labels in order, and the rows in
  order, a row pairing each label with its cell.  Frames are kept with
  \<^verbatim>\<open>object\<close> cells throughout; the labels of a frame are taken to be
  distinct, as in a frame read from a CSV file, and every row to have the frame's labels
  (\<open>wf_df\<close>).
\<close>

type_synonym row = "(string \<times> pyval) list"

record dataframe =
  columns :: "string list"
  rows :: "row list"

definition wf_df :: "dataframe \<Rightarrow> bool" where
  "wf_df df = (distinct (columns df) \<and> (\<forall>r \<in> set (rows df). map fst r = columns df))"

definition cell :: "row \<Rightarrow> string \<Rightarrow> pyval" where
  "cell r c = (case map_of r c of Some v \<Rightarrow> v | None \<Rightarrow> FloatV NaN)"

definition len_index :: "dataframe \<Rightarrow> nat" where
  "len_index df = length (rows df)"

text \<open>
  \<^verbatim>\<open>df[mask]\<close> and \<^verbatim>\<open>df[df[c] == v]\<close>: the rows selected by a
  boolean mask, in order.
\<close>

definition select_mask :: "dataframe \<Rightarrow> bool list \<Rightarrow> dataframe" where
  "select_mask df bs = df\<lparr>rows := map fst (filter snd (zip (rows df) bs))\<rparr>"

definition select_rows :: "dataframe \<Rightarrow> (row \<Rightarrow> bool) \<Rightarrow> dataframe" where
  "select_rows df p = df\<lparr>rows := filter p (rows df)\<rparr>"

section \<open>Binary64 arithmetic\<close>

text \<open>
  Python's \<^verbatim>\<open>float\<close> operations round the exact result to the nearest
  binary64 number, ties to even.  \<open>round_double\<close> does this to a rational: 53
  significant bits, the exponent bounded below (subnormal numbers); \<open>mk_float\<close>
  gives the float, an infinity from \<open>2 ^ 1024\<close> on, and a zero with the sign asked
  for.  \<open>ilog b x\<close> is \<open>\<lfloor>log\<^sub>b x\<rfloor>\<close> for a positive \<open>x\<close>.
\<close>

definition ilog :: "nat \<Rightarrow> rat \<Rightarrow> int" where
  "ilog b x = (if 1 \<le> x then int (floorlog b (nat \<lfloor>x\<rfloor>)) - 1
               else - int (floorlog b (nat (\<lceil>1 / x\<rceil> - 1))))"

definition rhe :: "rat \<Rightarrow> int" where
  "rhe x = (let f = \<lfloor>x\<rfloor>; d = x - of_int f
            in if d < 1 / 2 then f else if 1 / 2 < d then f + 1
               else if even f then f else f + 1)"

definition pow_int :: "rat \<Rightarrow> int \<Rightarrow> rat" where
  "pow_int b e = (if 0 \<le> e then b ^ nat e else 1 / b ^ nat (- e))"

definition round_double :: "rat \<Rightarrow> rat" where
  "round_double x =
     (if x = 0 then 0
      else let e = max (ilog 2 \<bar>x\<bar>) (- 1022); u = pow_int 2 (e - 52)
           in of_int (rhe (x / u)) * u)"

definition mk_float :: "bool \<Rightarrow> rat \<Rightarrow> pyfloat" where
  "mk_float neg x =
     (let r = round_double x
      in if 2 ^ 1024 \<le> r then PosInf
         else if r \<le> - (2 ^ 1024) then NegInf
         else if r = 0 then (if neg then NegZero else Fin 0)
         else Fin r)"

fun is_nan :: "pyfloat \<Rightarrow> bool" where
  "is_nan NaN = True"
| "is_nan _ = False"

fun is_inf :: "pyfloat \<Rightarrow> bool" where
  "is_inf PosInf = True"
| "is_inf NegInf = True"
| "is_inf _ = False"

fun is_neg :: "pyfloat \<Rightarrow> bool" where
  "is_neg (Fin r) = (r < 0)"
| "is_neg NegZero = True"
| "is_neg NegInf = True"
| "is_neg _ = False"

fun fval :: "pyfloat \<Rightarrow> rat" where
  "fval (Fin r) = r"
| "fval _ = 0"

definition is_zero :: "pyfloat \<Rightarrow> bool" where
  "is_zero a = (a = Fin 0 \<or> a = NegZero)"

definition signed_inf :: "bool \<Rightarrow> pyfloat" where
  "signed_inf neg = (if neg then NegInf else PosInf)"

definition signed_zero :: "bool \<Rightarrow> pyfloat" where
  "signed_zero neg = (if neg then NegZero else Fin 0)"

text \<open>\<^verbatim>\<open>a * b\<close> on floats: never raises.\<close>

definition float_mul :: "pyfloat \<Rightarrow> pyfloat \<Rightarrow> pyfloat" where
  "float_mul a b =
     (if is_nan a \<or> is_nan b then NaN
      else if is_inf a \<or> is_inf b
        then (if is_zero a \<or> is_zero b then NaN else signed_inf (is_neg a \<noteq> is_neg b))
      else mk_float (is_neg a \<noteq> is_neg b) (fval a * fval b))"

text \<open>\<^verbatim>\<open>a / b\<close> on floats: a zero divisor raises \<^verbatim>\<open>ZeroDivisionError\<close>.\<close>

definition float_truediv :: "pyfloat \<Rightarrow> pyfloat \<Rightarrow> error + pyfloat" where
  "float_truediv a b =
     (if is_zero b then Inl ZeroDivisionError
      else if is_nan a \<or> is_nan b then Inr NaN
      else if is_inf a
        then (if is_inf b then Inr NaN else Inr (signed_inf (is_neg a \<noteq> is_neg b)))
      else if is_inf b then Inr (signed_zero (is_neg a \<noteq> is_neg b))
      else Inr (mk_float (is_neg a \<noteq> is_neg b) (fval a / fval b)))"

text \<open>\<^verbatim>\<open>float(n)\<close> of an \<^verbatim>\<open>int\<close>, and \<^verbatim>\<open>a / b\<close> on two
  \<^verbatim>\<open>int\<close>s: correctly rounded, \<^verbatim>\<open>OverflowError\<close> when the result is
  too large for a float.\<close>

definition float_of_int :: "int \<Rightarrow> error + pyfloat" where
  "float_of_int n =
     (if is_inf (mk_float False (of_int n)) then Inl OverflowError
      else Inr (mk_float False (of_int n)))"

definition int_truediv :: "int \<Rightarrow> int \<Rightarrow> error + pyfloat" where
  "int_truediv a b =
     (if b = 0 then Inl ZeroDivisionError
      else if is_inf (mk_float ((a < 0) \<noteq> (b < 0)) (of_int a / of_int b)) then Inl OverflowError
      else Inr (mk_float ((a < 0) \<noteq> (b < 0)) (of_int a / of_int b)))"

text \<open>
  \<^verbatim>\<open>round(x, ndigits)\<close> on a float with an \<^verbatim>\<open>int\<close> second argument: the
  exact value is rounded to \<open>ndigits\<close> decimal places, ties to even, and the decimal
  result read back as a float; an infinity or a NaN is returned as it is.
\<close>

definition float_round :: "pyfloat \<Rightarrow> int \<Rightarrow> error + pyfloat" where
  "float_round x ndigits =
     (if is_nan x \<or> is_inf x then Inr x
      else if 323 < ndigits then Inr x
      else if ndigits < - 308 then Inr (signed_zero (is_neg x))
      else let p = pow_int 10 ndigits;
               r = round_double (of_int (rhe (\<bar>fval x\<bar> * p)) / p)
           in if 2 ^ 1024 \<le> r then Inl OverflowError
              else if r = 0 then Inr (signed_zero (is_neg x))
              else Inr (Fin (if is_neg x then - r else r)))"

text \<open>\<^verbatim>\<open>round(x)\<close> and \<^verbatim>\<open>round(x, None)\<close>: the nearest \<^verbatim>\<open>int\<close>, ties
  to even.\<close>

definition float_round_int :: "pyfloat \<Rightarrow> error + int" where
  "float_round_int x =
     (if is_nan x then Inl ValueError
      else if is_inf x then Inl OverflowError
      else Inr (rhe (fval x)))"

section \<open>Strings and conversions\<close>

definition digit_char :: "nat \<Rightarrow> char" where
  "digit_char d = ''0123456789'' ! d"

definition is_digit :: "char \<Rightarrow> bool" where
  "is_digit c = (c \<in> set ''0123456789'')"

definition digit_val :: "char \<Rightarrow> nat" where
  "digit_val c = length (takeWhile (\<lambda>d. d \<noteq> c) ''0123456789'')"

fun digits_of_nat :: "nat \<Rightarrow> string" where
  "digits_of_nat n =
     (if n < 10 then [digit_char n] else digits_of_nat (n div 10) @ [digit_char (n mod 10)])"

declare digits_of_nat.simps [simp del]

definition nat_of_digits :: "string \<Rightarrow> nat" where
  "nat_of_digits ds = foldl (\<lambda>n c. 10 * n + digit_val c) 0 ds"

text \<open>\<^verbatim>\<open>str(n)\<close> of an \<^verbatim>\<open>int\<close>.\<close>

definition str_of_int :: "int \<Rightarrow> string" where
  "str_of_int n = (if n < 0 then CHR ''-'' # digits_of_nat (nat (- n)) else digits_of_nat (nat n))"

text \<open>\<^verbatim>\<open>sub in s\<close>, \<^verbatim>\<open>s.replace(old, '')\<close>, \<^verbatim>\<open>s.lstrip('0')\<close>,
  \<^verbatim>\<open>s.isnumeric()\<close>, \<^verbatim>\<open>s.upper()\<close> and \<^verbatim>\<open>s.split(' ')[0]\<close>.\<close>

definition startswith :: "string \<Rightarrow> string \<Rightarrow> bool" where
  "startswith s sub = (take (length sub) s = sub)"

fun contains :: "string \<Rightarrow> string \<Rightarrow> bool" where
  "contains [] sub = (sub = [])"
| "contains (c # cs) sub = (startswith (c # cs) sub \<or> contains cs sub)"

function replace_with_empty :: "string \<Rightarrow> string \<Rightarrow> string" where
  "replace_with_empty [] old = []"
| "replace_with_empty (c # cs) old =
     (if old \<noteq> [] \<and> startswith (c # cs) old
      then replace_with_empty (drop (length old) (c # cs)) old
      else c # replace_with_empty cs old)"
  by pat_completeness auto
termination
  by (relation "measure (\<lambda>(s, old). length s)") auto

definition lstrip_zero :: "string \<Rightarrow> string" where
  "lstrip_zero s = dropWhile (\<lambda>c. c = CHR ''0'') s"

definition isnumeric :: "string \<Rightarrow> bool" where
  "isnumeric s = (s \<noteq> [] \<and> (\<forall>c \<in> set s. is_digit c))"

definition upper_char :: "char \<Rightarrow> char" where
  "upper_char c =
     (case map_of (zip ''abcdefghijklmnopqrstuvwxyz'' ''ABCDEFGHIJKLMNOPQRSTUVWXYZ'') c of
        Some u \<Rightarrow> u | None \<Rightarrow> c)"

definition lower_char :: "char \<Rightarrow> char" where
  "lower_char c =
     (case map_of (zip ''ABCDEFGHIJKLMNOPQRSTUVWXYZ'' ''abcdefghijklmnopqrstuvwxyz'') c of
        Some u \<Rightarrow> u | None \<Rightarrow> c)"

definition upper :: "string \<Rightarrow> string" where
  "upper s = map upper_char s"

definition split_space_first :: "string \<Rightarrow> string" where
  "split_space_first s = takeWhile (\<lambda>c. c \<noteq> CHR '' '') s"

subsection \<open>\<^verbatim>\<open>repr\<close> of a float\<close>

text \<open>
  \<^verbatim>\<open>str(x)\<close> of a float is the shortest decimal string that reads back as
  \<open>x\<close>: the least number of digits for which one of the two neighbouring decimals
  rounds to \<open>x\<close> (the nearer one when both do), printed with an exponent when the
  decimal point would be far from the digits.
\<close>

definition pick_decimal :: "rat \<Rightarrow> rat \<Rightarrow> int option" where
  "pick_decimal x s =
     (let q = x / s; lo = \<lfloor>q\<rfloor>; hi = lo + 1;
          ok_lo = (round_double (of_int lo * s) = x);
          ok_hi = (round_double (of_int hi * s) = x)
      in if ok_lo \<and> ok_hi then Some (rhe q)
         else if ok_lo then Some lo
         else if ok_hi then Some hi
         else None)"

definition decimal_digits :: "int \<Rightarrow> nat \<Rightarrow> int \<Rightarrow> string \<times> int" where
  "decimal_digits e10 nd m =
     (let ds = digits_of_nat (nat m)
      in (rev (dropWhile (\<lambda>c. c = CHR ''0'') (rev ds)), int (length ds) + (e10 - int nd + 1)))"

fun shortest_from :: "rat \<Rightarrow> int \<Rightarrow> nat \<Rightarrow> nat \<Rightarrow> string \<times> int" where
  "shortest_from x e10 nd fuel =
     (case pick_decimal x (pow_int 10 (e10 - int nd + 1)) of
        Some m \<Rightarrow> decimal_digits e10 nd m
      | None \<Rightarrow>
          if fuel = 0 then decimal_digits e10 nd (rhe (x / pow_int 10 (e10 - int nd + 1)))
          else shortest_from x e10 (nd + 1) (fuel - 1))"

declare shortest_from.simps [simp del]

definition shortest :: "rat \<Rightarrow> string \<times> int" where
  "shortest x = shortest_from x (ilog 10 x) 1 16"

definition repr_pos :: "rat \<Rightarrow> string" where
  "repr_pos x =
     (case shortest x of (ds, decpt) \<Rightarrow>
        if decpt \<le> - 4 \<or> 16 < decpt
        then (let e = decpt - 1; es = digits_of_nat (nat \<bar>e\<bar>)
              in [hd ds] @ (if 1 < length ds then CHR ''.'' # tl ds else [])
                 @ ''e'' @ (if e < 0 then ''-'' else ''+'')
                 @ (if length es < 2 then CHR ''0'' # es else es))
        else if decpt \<le> 0 then ''0.'' @ replicate (nat (- decpt)) CHR ''0'' @ ds
        else if int (length ds) \<le> decpt
          then ds @ replicate (nat decpt - length ds) CHR ''0'' @ ''.0''
        else take (nat decpt) ds @ ''.'' @ drop (nat decpt) ds)"

fun float_repr :: "pyfloat \<Rightarrow> string" where
  "float_repr NaN = ''nan''"
| "float_repr PosInf = ''inf''"
| "float_repr NegInf = ''-inf''"
| "float_repr NegZero = ''-0.0''"
| "float_repr (Fin r) =
     (if r = 0 then ''0.0'' else if r < 0 then CHR ''-'' # repr_pos (- r) else repr_pos r)"

text \<open>\<^verbatim>\<open>'{0:.5f}'.format(x)\<close> and its like: \<open>prec\<close> digits after the point.\<close>

definition format_fixed :: "nat \<Rightarrow> pyfloat \<Rightarrow> string" where
  "format_fixed prec x =
     (if is_nan x then ''nan''
      else if is_inf x then (if is_neg x then ''-inf'' else ''inf'')
      else let n = nat (rhe (\<bar>fval x\<bar> * 10 ^ prec));
               fs = digits_of_nat (n mod 10 ^ prec)
           in (if is_neg x then ''-'' else [])
              @ digits_of_nat (n div 10 ^ prec)
              @ (if 0 < prec then CHR ''.'' # replicate (prec - length fs) CHR ''0'' @ fs
                 else []))"

subsection \<open>\<^verbatim>\<open>float(s)\<close> of a string\<close>

text \<open>
  Blanks around the text are dropped; then a sign, and \<^verbatim>\<open>inf\<close>,
  \<^verbatim>\<open>infinity\<close> or \<^verbatim>\<open>nan\<close> in any case, or a decimal number with an
  optional fraction and exponent, single underscores allowed between digits.  Anything
  else raises \<^verbatim>\<open>ValueError\<close>.
\<close>

definition is_space :: "char \<Rightarrow> bool" where
  "is_space c = (c \<in> set [CHR '' '', CHR 0x09, CHR 0x0A, CHR 0x0B, CHR 0x0C, CHR 0x0D])"

definition strip_ws :: "string \<Rightarrow> string" where
  "strip_ws s = rev (dropWhile is_space (rev (dropWhile is_space s)))"

fun digitpart_more :: "string \<Rightarrow> string \<times> string" where
  "digitpart_more [] = ([], [])"
| "digitpart_more [c] = (if is_digit c then ([c], []) else ([], [c]))"
| "digitpart_more (c # d # cs) =
     (if is_digit c then (case digitpart_more (d # cs) of (ds, r) \<Rightarrow> (c # ds, r))
      else if c = CHR ''_'' \<and> is_digit d
        then (case digitpart_more cs of (ds, r) \<Rightarrow> (d # ds, r))
      else ([], c # d # cs))"

definition digitpart :: "string \<Rightarrow> string \<times> string" where
  "digitpart s =
     (case s of [] \<Rightarrow> ([], [])
      | c # cs \<Rightarrow> if is_digit c then (case digitpart_more cs of (ds, r) \<Rightarrow> (c # ds, r))
                  else ([], s))"

definition split_sign :: "string \<Rightarrow> bool \<times> string" where
  "split_sign s =
     (case s of [] \<Rightarrow> (False, [])
      | c # cs \<Rightarrow> if c = CHR ''-'' then (True, cs) else if c = CHR ''+'' then (False, cs)
                  else (False, s))"

definition parse_exponent :: "string \<Rightarrow> (int \<times> string) option" where
  "parse_exponent s =
     (case s of [] \<Rightarrow> Some (0, [])
      | c # cs \<Rightarrow>
          if c = CHR ''e'' \<or> c = CHR ''E''
          then (case split_sign cs of (eneg, r) \<Rightarrow>
                 (case digitpart r of (ed, r') \<Rightarrow>
                    if ed = [] then None
                    else Some (if eneg then - int (nat_of_digits ed) else int (nat_of_digits ed), r')))
          else Some (0, s))"

definition float_of_string :: "string \<Rightarrow> error + pyfloat" where
  "float_of_string s =
     (case split_sign (strip_ws s) of (neg, t) \<Rightarrow>
        if map lower_char t = ''inf'' \<or> map lower_char t = ''infinity''
          then Inr (signed_inf neg)
        else if map lower_char t = ''nan'' then Inr NaN
        else (case digitpart t of (ip, r1) \<Rightarrow>
          (case (if startswith r1 ''.'' then digitpart (tl r1) else ([], r1)) of (fp, r2) \<Rightarrow>
             if ip = [] \<and> fp = [] then Inl ValueError
             else (case parse_exponent r2 of
                     None \<Rightarrow> Inl ValueError
                   | Some (ex, r4) \<Rightarrow>
                       if r4 \<noteq> [] then Inl ValueError
                       else let v = of_nat (nat_of_digits (ip @ fp))
                                      * pow_int 10 (ex - int (length fp))
                            in Inr (mk_float neg (if neg then - v else v))))))"

section \<open>Keys: how pandas matches rows\<close>

text \<open>
  \<^verbatim>\<open>merge\<close> and \<^verbatim>\<open>duplicated\<close> hash the key cells of an object
  column: two cells are the same key when Python's \<^verbatim>\<open>==\<close> holds
  (\<^verbatim>\<open>1 == 1.0\<close>, \<^verbatim>\<open>-0.0 == 0.0\<close>), and all NaN are one key.
  \<open>key_norm\<close> picks one representative of each class, so that keys compare
  with HOL equality.
\<close>

fun key_norm :: "pyval \<Rightarrow> pyval" where
  "key_norm (IntV n) = FloatV (Fin (of_int n))"
| "key_norm (FloatV NegZero) = FloatV (Fin 0)"
| "key_norm v = v"

text \<open>Python's \<^verbatim>\<open>==\<close> on two cells: numbers compare by value, whatever their
  type, a string equals only the same string, and NaN equals nothing.\<close>

fun is_null :: "pyval \<Rightarrow> bool" where
  "is_null (FloatV NaN) = True"
| "is_null _ = False"

definition py_eq :: "pyval \<Rightarrow> pyval \<Rightarrow> bool" where
  "py_eq a b = (\<not> is_null a \<and> \<not> is_null b \<and> key_norm a = key_norm b)"

definition row_key :: "string list \<Rightarrow> row \<Rightarrow> pyval list" where
  "row_key pk r = map (\<lambda>c. key_norm (cell r c)) pk"

section \<open>The outer join of \<^verbatim>\<open>compare\<close>\<close>

text \<open>
  \<^verbatim>\<open>left.merge(right, how='outer', on=on, indicator=True)\<close>.  The result has
  the key columns once, the other columns of \<open>left\<close> and of \<open>right\<close> (with the
  suffixes \<^verbatim>\<open>_x\<close> and \<^verbatim>\<open>_y\<close> where a label is on both sides) and the
  indicator column \<^verbatim>\<open>_merge\<close>.  A left row gives one result row for every
  right row with the same key (\<^verbatim>\<open>both\<close>), or one \<^verbatim>\<open>left_only\<close> row
  when there is none; a right row whose key is on no left row gives a
  \<^verbatim>\<open>right_only\<close> row.  pandas raises \<^verbatim>\<open>KeyError\<close> for a key label
  that is not a column of both frames, and \<^verbatim>\<open>ValueError\<close> for a frame that
  has a column with a reserved indicator name, and for an empty key list.  The order of
  the result rows differs between pandas versions; the model lists the rows of the left
  rows first, and no theorem below depends on the order.
\<close>

definition merged_columns :: "dataframe \<Rightarrow> dataframe \<Rightarrow> string list \<Rightarrow> string list" where
  "merged_columns left right on =
     map (\<lambda>c. if c \<in> set on then c
              else if c \<in> set (columns right) then c @ ''_x'' else c) (columns left)
     @ map (\<lambda>c. if c \<in> set (columns left) then c @ ''_y'' else c)
         (filter (\<lambda>c. c \<notin> set on) (columns right))
     @ [''_merge'']"

definition merged_cells ::
  "dataframe \<Rightarrow> dataframe \<Rightarrow> string list \<Rightarrow> row option \<Rightarrow> row option \<Rightarrow> pyval list" where
  "merged_cells left right on l r =
     map (\<lambda>c. case l of Some lr \<Rightarrow> cell lr c
               | None \<Rightarrow> (if c \<in> set on
                          then (case r of Some rr \<Rightarrow> cell rr c | None \<Rightarrow> FloatV NaN)
                          else FloatV NaN)) (columns left)
     @ map (\<lambda>c. case r of Some rr \<Rightarrow> cell rr c | None \<Rightarrow> FloatV NaN)
         (filter (\<lambda>c. c \<notin> set on) (columns right))
     @ [StrV (case (l, r) of (Some _, Some _) \<Rightarrow> ''both''
                          | (Some _, None) \<Rightarrow> ''left_only''
                          | _ \<Rightarrow> ''right_only'')]"

definition merged_row ::
  "dataframe \<Rightarrow> dataframe \<Rightarrow> string list \<Rightarrow> row option \<Rightarrow> row option \<Rightarrow> row" where
  "merged_row left right on l r =
     zip (merged_columns left right on) (merged_cells left right on l r)"

definition matches :: "string list \<Rightarrow> row \<Rightarrow> row list \<Rightarrow> row list" where
  "matches on l rs = filter (\<lambda>r. row_key on r = row_key on l) rs"

definition left_rows :: "dataframe \<Rightarrow> dataframe \<Rightarrow> string list \<Rightarrow> row \<Rightarrow> row list" where
  "left_rows left right on l =
     (if matches on l (rows right) = [] then [merged_row left right on (Some l) None]
      else map (\<lambda>r. merged_row left right on (Some l) (Some r)) (matches on l (rows right)))"

definition right_only_rows :: "dataframe \<Rightarrow> dataframe \<Rightarrow> string list \<Rightarrow> row list" where
  "right_only_rows left right on =
     map (\<lambda>r. merged_row left right on None (Some r))
       (filter (\<lambda>r. matches on r (rows left) = []) (rows right))"

definition reserved_labels :: "string list" where
  "reserved_labels = [''_merge'', ''_left_indicator'', ''_right_indicator'']"

definition merge_outer :: "dataframe \<Rightarrow> dataframe \<Rightarrow> string list \<Rightarrow> error + dataframe" where
  "merge_outer left right on =
     (if \<not> set on \<subseteq> set (columns left) \<inter> set (columns right) then Inl KeyError
      else if set reserved_labels \<inter> (set (columns left) \<union> set (columns right)) \<noteq> {}
        then Inl ValueError
      else if on = [] then Inl ValueError
      else Inr \<lparr>columns = merged_columns left right on,
                rows = concat (map (left_rows left right on) (rows left))
                       @ right_only_rows left right on\<rparr>)"

text \<open>
  \<^verbatim>\<open>==\<close> as pandas applies it elementwise to object columns
  (\<^verbatim>\<open>df[a] == df[b]\<close>, \<^verbatim>\<open>df[a] == 'both'\<close>): a null on either side gives
  \<^verbatim>\<open>False\<close>, otherwise Python's \<^verbatim>\<open>==\<close> decides.
\<close>

definition cell_eq :: "pyval \<Rightarrow> pyval \<Rightarrow> bool" where
  "cell_eq a b = (if is_null a \<or> is_null b then False else py_eq a b)"

text \<open>\<^verbatim>\<open>merged_df['_merge'] == s\<close> at one row.\<close>

definition has_indicator :: "string \<Rightarrow> row \<Rightarrow> bool" where
  "has_indicator s r = cell_eq (cell r ''_merge'') (StrV s)"

text \<open>\<^verbatim>\<open>unique_records\<close>: the two one-sided parts of the merge and their sizes
  (writing them to CSV files is not modelled).\<close>

definition unique_source_df :: "dataframe \<Rightarrow> dataframe" where
  "unique_source_df merged_df =
     select_rows merged_df (has_indicator ''left_only'')"

definition unique_snow_df :: "dataframe \<Rightarrow> dataframe" where
  "unique_snow_df merged_df =
     select_rows merged_df (has_indicator ''right_only'')"

definition unique_records :: "dataframe \<Rightarrow> nat \<times> nat" where
  "unique_records merged_df =
     (len_index (unique_source_df merged_df), len_index (unique_snow_df merged_df))"

definition identical_df :: "dataframe \<Rightarrow> dataframe" where
  "identical_df merged_df =
     select_rows merged_df (has_indicator ''both'')"

section \<open>Duplicates\<close>

text \<open>
  \<^verbatim>\<open>df.duplicated(subset)\<close> with the default \<^verbatim>\<open>keep='first'\<close>: the mask
  is true at a row whose key is the key of an earlier row.  An empty frame gives the
  empty mask before the labels are looked at; a label that is not a column raises
  \<^verbatim>\<open>KeyError\<close>, an empty subset \<^verbatim>\<open>ValueError\<close>.
\<close>

fun dup_mask :: "'a list \<Rightarrow> 'a list \<Rightarrow> bool list" where
  "dup_mask seen [] = []"
| "dup_mask seen (k # ks) = (k \<in> set seen) # dup_mask (k # seen) ks"

definition duplicated :: "dataframe \<Rightarrow> string list \<Rightarrow> error + bool list" where
  "duplicated df keys =
     (if rows df = [] then Inr []
      else if \<not> set keys \<subseteq> set (columns df) then Inl KeyError
      else if keys = [] then Inl ValueError
      else Inr (dup_mask [] (map (row_key keys) (rows df))))"

definition dupes :: "dataframe \<Rightarrow> string list \<Rightarrow> error + dataframe" where
  "dupes df pk = (case duplicated df pk of Inl e \<Rightarrow> Inl e | Inr m \<Rightarrow> Inr (select_mask df m))"

definition duplicate_records :: "dataframe \<Rightarrow> dataframe \<Rightarrow> nat \<times> nat" where
  "duplicate_records source_dupes snow_dupes = (len_index source_dupes, len_index snow_dupes)"

section \<open>The column overlap of matched rows\<close>

text \<open>
  \<^verbatim>\<open>round(len(overlap_df.index) / len(df.index), 2) * 100.00\<close>: the true
  division of two \<^verbatim>\<open>int\<close>s (\<^verbatim>\<open>ZeroDivisionError\<close> for an empty frame),
  rounded to two decimal places, then multiplied by the float 100.
\<close>

definition overlap_percent :: "nat \<Rightarrow> nat \<Rightarrow> error + pyfloat" where
  "overlap_percent k n =
     (case int_truediv (int k) (int n) of
        Inl e \<Rightarrow> Inl e
      | Inr q \<Rightarrow> (case float_round q 2 of
                    Inl e \<Rightarrow> Inl e
                  | Inr r \<Rightarrow> Inr (float_mul r (Fin 100))))"

definition overlap_df :: "dataframe \<Rightarrow> string \<Rightarrow> dataframe" where
  "overlap_df df c = select_rows df (\<lambda>r. cell_eq (cell r (c @ ''_x'')) (cell r (c @ ''_y'')))"

text \<open>\<^verbatim>\<open>d[k] = v\<close> on a dict kept in insertion order.\<close>

fun dict_set :: "'k \<Rightarrow> 'v \<Rightarrow> ('k \<times> 'v) list \<Rightarrow> ('k \<times> 'v) list" where
  "dict_set k v [] = [(k, v)]"
| "dict_set k v ((k', v') # d) = (if k' = k then (k, v) # d else (k', v') # dict_set k v d)"

text \<open>The loop over \<^verbatim>\<open>table.common_columns\<close> filling \<^verbatim>\<open>column_match_dict\<close>;
  a label missing from the frame raises \<^verbatim>\<open>KeyError\<close>.\<close>

fun column_match_loop ::
  "dataframe \<Rightarrow> string list \<Rightarrow> string list \<Rightarrow> (string \<times> pyfloat) list
     \<Rightarrow> error + (string \<times> pyfloat) list" where
  "column_match_loop df pk [] d = Inr d"
| "column_match_loop df pk (c # cs) d =
     (if c \<in> set pk then column_match_loop df pk cs d
      else if c @ ''_x'' \<notin> set (columns df) \<or> c @ ''_y'' \<notin> set (columns df) then Inl KeyError
      else (case overlap_percent (len_index (overlap_df df c)) (len_index df) of
              Inl e \<Rightarrow> Inl e
            | Inr v \<Rightarrow> column_match_loop df pk cs (dict_set c v d)))"

text \<open>
  \<^verbatim>\<open>sorted(column_match_dict.items(), key=lambda item: item[1])\<close>: a stable sort
  by the float value.  \<open>float_rank\<close> orders the floats as Python's \<^verbatim>\<open><\<close> does (the
  two zeros are equal); the values sorted here are never NaN.
\<close>

fun float_rank :: "pyfloat \<Rightarrow> int \<times> rat" where
  "float_rank NegInf = (- 1, 0)"
| "float_rank (Fin r) = (0, r)"
| "float_rank NegZero = (0, 0)"
| "float_rank PosInf = (1, 0)"
| "float_rank NaN = (2, 0)"

definition sorted_items :: "(string \<times> pyfloat) list \<Rightarrow> (string \<times> pyfloat) list" where
  "sorted_items d = sort_key (\<lambda>item. float_rank (snd item)) d"

definition format_item :: "string \<times> pyfloat \<Rightarrow> string" where
  "format_item item = ''Column '' @ fst item @ '' = '' @ float_repr (snd item) @ ''%'' @ [CHR 0x0A]"

definition column_match_items ::
  "dataframe \<Rightarrow> string list \<Rightarrow> string list \<Rightarrow> error + (string \<times> pyfloat) list" where
  "column_match_items df pk common =
     (case column_match_loop df pk common [] of
        Inl e \<Rightarrow> Inl e
      | Inr d \<Rightarrow> Inr (sorted_items d))"

section \<open>The percent variance of \<^verbatim>\<open>report\<close>\<close>

text \<open>
  \<^verbatim>\<open>abs(tot_source - tot_snow) / ((tot_source + tot_snow) / 2) * 100\<close> and its
  text \<^verbatim>\<open>'{0:.5f}'.format(...) + '%'\<close>.  The two totals are lengths.
\<close>

definition percent_variance :: "nat \<Rightarrow> nat \<Rightarrow> error + pyfloat" where
  "percent_variance tot_source tot_snow =
     (case int_truediv (int tot_source + int tot_snow) 2 of
        Inl e \<Rightarrow> Inl e
      | Inr h \<Rightarrow> (case float_of_int \<bar>int tot_source - int tot_snow\<bar> of
                    Inl e \<Rightarrow> Inl e
                  | Inr a \<Rightarrow> (case float_truediv a h of
                                Inl e \<Rightarrow> Inl e
                              | Inr q \<Rightarrow> Inr (float_mul q (Fin 100)))))"

definition percent_variance_text :: "nat \<Rightarrow> nat \<Rightarrow> error + string" where
  "percent_variance_text tot_source tot_snow =
     (case percent_variance tot_source tot_snow of
        Inl e \<Rightarrow> Inl e
      | Inr v \<Rightarrow> Inr (format_fixed 5 v @ ''%''))"

section \<open>Transformation rules\<close>

text \<open>\<^verbatim>\<open>str(x)\<close> of a cell, and of a rule's value, which may be \<^verbatim>\<open>None\<close>.\<close>

fun py_str :: "pyval \<Rightarrow> string" where
  "py_str (StrV s) = s"
| "py_str (IntV n) = str_of_int n"
| "py_str (FloatV f) = float_repr f"

fun str_obj :: "pyval option \<Rightarrow> string" where
  "str_obj None = ''None''"
| "str_obj (Some v) = py_str v"

definition append_rule :: "pyval \<Rightarrow> pyval option \<Rightarrow> pyval" where
  "append_rule x v = StrV (py_str x @ str_obj v)"

definition prepend_rule :: "pyval \<Rightarrow> pyval option \<Rightarrow> pyval" where
  "prepend_rule x v = StrV (str_obj v @ py_str x)"

definition strip_rule :: "pyval \<Rightarrow> pyval option \<Rightarrow> pyval" where
  "strip_rule x v =
     (let s = replace_with_empty (py_str x) (str_obj v)
      in if s = [] then FloatV NaN else StrV s)"

definition trunc_date_rule :: "pyval \<Rightarrow> pyval" where
  "trunc_date_rule x = StrV (split_space_first (py_str x))"

definition capitalize_rule :: "pyval \<Rightarrow> pyval" where
  "capitalize_rule x = (if py_eq x (FloatV NaN) then x else StrV (upper (py_str x)))"

text \<open>\<^verbatim>\<open>cast_int\<close>: \<^verbatim>\<open>x.lstrip\<close> exists on a \<^verbatim>\<open>str\<close> only, any other
  cell raises \<^verbatim>\<open>AttributeError\<close>.\<close>

definition cast_int :: "pyval \<Rightarrow> error + pyval" where
  "cast_int x =
     (case (if py_eq x (FloatV NaN) then StrV ''0'' else x) of
        StrV s \<Rightarrow>
          (let s1 = lstrip_zero s; s2 = (if s1 = [] then ''0'' else s1)
           in if isnumeric s2 then Inr (IntV (int (nat_of_digits s2))) else Inr (IntV 0))
      | _ \<Rightarrow> Inl AttributeError)"

text \<open>\<^verbatim>\<open>float(x)\<close> and \<^verbatim>\<open>round(f, value)\<close>, where \<^verbatim>\<open>value\<close> is the
  rule's value: \<^verbatim>\<open>None\<close> gives an \<^verbatim>\<open>int\<close>, an \<^verbatim>\<open>int\<close> a float, anything
  else raises \<^verbatim>\<open>TypeError\<close>.\<close>

fun py_float :: "pyval \<Rightarrow> error + pyfloat" where
  "py_float (StrV s) = float_of_string s"
| "py_float (IntV n) = float_of_int n"
| "py_float (FloatV f) = Inr f"

fun py_round :: "pyfloat \<Rightarrow> pyval option \<Rightarrow> error + pyval" where
  "py_round f None = (case float_round_int f of Inl e \<Rightarrow> Inl e | Inr n \<Rightarrow> Inr (IntV n))"
| "py_round f (Some (IntV n)) =
     (case float_round f n of Inl e \<Rightarrow> Inl e | Inr r \<Rightarrow> Inr (FloatV r))"
| "py_round f (Some _) = Inl TypeError"

definition round_rule :: "pyval \<Rightarrow> pyval option \<Rightarrow> error + pyval" where
  "round_rule x v =
     (case py_float (if py_eq x (FloatV NaN) \<or> py_eq x (StrV ''None'') then IntV 0 else x) of
        Inl e \<Rightarrow> Inl e
      | Inr f \<Rightarrow> py_round f v)"

definition none_rule :: "pyval \<Rightarrow> pyval" where
  "none_rule x =
     (if contains (py_str x) ''None'' then FloatV NaN
      else if py_str x = [] then FloatV NaN
      else if py_str x = ''NA'' then FloatV NaN
      else if py_str x = ''Softbank'' then FloatV NaN
      else x)"

section \<open>The table object\<close>

text \<open>
  A rule of the mapping file: its \<^verbatim>\<open>target\<close>, \<^verbatim>\<open>column\<close> and
  \<^verbatim>\<open>operation\<close>, and its \<^verbatim>\<open>value\<close>, which may be missing
  (\<open>Absent\<close>), \<^verbatim>\<open>null\<close> (\<open>Present None\<close>) or a string or number.
\<close>

datatype rule_value = Absent | Present "pyval option"

record rule =
  r_target :: string
  r_column :: string
  r_operation :: string
  r_value :: rule_value

record table_config =
  cfg_Columns :: "(string \<times> string) list"
  cfg_Rules :: "rule list"
  cfg_PK :: "string list"

record db_table =
  name :: string
  source :: string
  column_mapping :: "(string \<times> string) list"
  column_rules :: "rule list"
  primary_key :: "string list"
  source_df :: dataframe
  snow_df :: dataframe
  common_columns :: "string list"

text \<open>\<^verbatim>\<open>read_mapping_file\<close>: every entry of the file whose key is a substring of
  the table's name overwrites the three attributes, in the file's order.\<close>

definition read_mapping_file :: "db_table \<Rightarrow> (string \<times> table_config) list \<Rightarrow> db_table" where
  "read_mapping_file t json_dict =
     foldl (\<lambda>t entry.
              if contains (name t) (fst entry)
              then t\<lparr>column_mapping := cfg_Columns (snd entry),
                     column_rules := cfg_Rules (snd entry),
                     primary_key := cfg_PK (snd entry)\<rparr>
              else t) t json_dict"

text \<open>\<^verbatim>\<open>rename_source_columns\<close>: \<^verbatim>\<open>source_df.rename(columns=column_mapping)\<close>.\<close>

definition rename_label :: "(string \<times> string) list \<Rightarrow> string \<Rightarrow> string" where
  "rename_label m c = (case map_of m c of Some c' \<Rightarrow> c' | None \<Rightarrow> c)"

definition rename_df :: "(string \<times> string) list \<Rightarrow> dataframe \<Rightarrow> dataframe" where
  "rename_df m df =
     \<lparr>columns = map (rename_label m) (columns df),
      rows = map (map (\<lambda>kv. (rename_label m (fst kv), snd kv))) (rows df)\<rparr>"

definition rename_source_columns :: "db_table \<Rightarrow> db_table" where
  "rename_source_columns t = t\<lparr>source_df := rename_df (column_mapping t) (source_df t)\<rparr>"

text \<open>\<^verbatim>\<open>df[c] = df[c].apply(f)\<close>: \<open>f\<close> on every cell of the column, top down; the
  first exception ends it.\<close>

fun map_result :: "('a \<Rightarrow> error + 'b) \<Rightarrow> 'a list \<Rightarrow> error + 'b list" where
  "map_result f [] = Inr []"
| "map_result f (x # xs) =
     (case f x of
        Inl e \<Rightarrow> Inl e
      | Inr y \<Rightarrow> (case map_result f xs of Inl e \<Rightarrow> Inl e | Inr ys \<Rightarrow> Inr (y # ys)))"

definition apply_cell :: "(pyval \<Rightarrow> error + pyval) \<Rightarrow> string \<Rightarrow> string \<times> pyval \<Rightarrow> error + string \<times> pyval" where
  "apply_cell f c kv =
     (if fst kv = c then (case f (snd kv) of Inl e \<Rightarrow> Inl e | Inr v \<Rightarrow> Inr (fst kv, v))
      else Inr kv)"

definition apply_column :: "(pyval \<Rightarrow> error + pyval) \<Rightarrow> string \<Rightarrow> dataframe \<Rightarrow> error + dataframe" where
  "apply_column f c df =
     (case map_result (map_result (apply_cell f c)) (rows df) of
        Inl e \<Rightarrow> Inl e
      | Inr rs \<Rightarrow> Inr (df\<lparr>rows := rs\<rparr>))"

text \<open>The function a rule applies to the cells: \<^verbatim>\<open>rule['value']\<close> raises
  \<^verbatim>\<open>KeyError\<close> when the rule has no value; an unknown operation is reported and
  changes nothing (\<open>None\<close>).\<close>

definition rule_function :: "rule \<Rightarrow> error + (pyval \<Rightarrow> error + pyval) option" where
  "rule_function r =
     (if r_operation r = ''append'' \<or> r_operation r = ''prepend''
         \<or> r_operation r = ''strip'' \<or> r_operation r = ''round''
      then (case r_value r of
              Absent \<Rightarrow> Inl KeyError
            | Present v \<Rightarrow>
                Inr (Some (if r_operation r = ''append'' then (\<lambda>x. Inr (append_rule x v))
                           else if r_operation r = ''prepend'' then (\<lambda>x. Inr (prepend_rule x v))
                           else if r_operation r = ''strip'' then (\<lambda>x. Inr (strip_rule x v))
                           else (\<lambda>x. round_rule x v))))
      else if r_operation r = ''capitalize'' then Inr (Some (\<lambda>x. Inr (capitalize_rule x)))
      else if r_operation r = ''trunc_date'' then Inr (Some (\<lambda>x. Inr (trunc_date_rule x)))
      else if r_operation r = ''cast_int'' then Inr (Some cast_int)
      else if r_operation r = ''none'' then Inr (Some (\<lambda>x. Inr (none_rule x)))
      else Inr None)"

definition apply_rule_df :: "rule \<Rightarrow> dataframe \<Rightarrow> error + dataframe" where
  "apply_rule_df r df =
     (if r_column r \<notin> set (columns df) then Inr df
      else (case rule_function r of
              Inl e \<Rightarrow> Inl e
            | Inr None \<Rightarrow> Inr df
            | Inr (Some f) \<Rightarrow> apply_column f (r_column r) df))"

definition apply_rule :: "db_table \<Rightarrow> rule \<Rightarrow> error + db_table" where
  "apply_rule t r =
     (if r_target r = ''source''
      then (case apply_rule_df r (source_df t) of
              Inl e \<Rightarrow> Inl e | Inr df \<Rightarrow> Inr (t\<lparr>source_df := df\<rparr>))
      else if r_target r = ''snow''
      then (case apply_rule_df r (snow_df t) of
              Inl e \<Rightarrow> Inl e | Inr df \<Rightarrow> Inr (t\<lparr>snow_df := df\<rparr>))
      else Inl KeyError)"

fun apply_rules :: "db_table \<Rightarrow> rule list \<Rightarrow> error + db_table" where
  "apply_rules t [] = Inr t"
| "apply_rules t (r # rs) =
     (case apply_rule t r of Inl e \<Rightarrow> Inl e | Inr t' \<Rightarrow> apply_rules t' rs)"

definition none_all :: "dataframe \<Rightarrow> dataframe" where
  "none_all df = df\<lparr>rows := map (map (\<lambda>kv. (fst kv, none_rule (snd kv)))) (rows df)\<rparr>"

definition dv_none_rule :: "db_table \<Rightarrow> db_table" where
  "dv_none_rule t = t\<lparr>source_df := none_all (source_df t), snow_df := none_all (snow_df t)\<rparr>"

text \<open>
  \<^verbatim>\<open>list(set(source_df.columns) & set(snow_df.columns))\<close>: Python leaves the order
  of this list open; the model lists the labels in the order of the source frame.
\<close>

definition intersect_columns :: "dataframe \<Rightarrow> dataframe \<Rightarrow> string list" where
  "intersect_columns a b = remdups (filter (\<lambda>c. c \<in> set (columns b)) (columns a))"

text \<open>
  \<^verbatim>\<open>DB_Table.__init__\<close>, given the two frames that \<^verbatim>\<open>read_csv\<close> returns and the
  content of the mapping file.
\<close>

definition DB_Table ::
  "string \<Rightarrow> string \<Rightarrow> dataframe \<Rightarrow> dataframe \<Rightarrow> (string \<times> table_config) list
     \<Rightarrow> error + db_table" where
  "DB_Table src nm source_csv snow_csv json_dict =
     (let t0 = \<lparr>name = nm, source = src, column_mapping = [], column_rules = [],
                primary_key = [], source_df = source_csv, snow_df = snow_csv,
                common_columns = []\<rparr>;
          t1 = rename_source_columns (read_mapping_file t0 json_dict);
          cc = intersect_columns (source_df t1) (snow_df t1);
          t2 = t1\<lparr>common_columns := (if ''TSTAMP'' \<in> set cc then remove1 ''TSTAMP'' cc else cc)\<rparr>
      in case apply_rules t2 (column_rules t2) of
           Inl e \<Rightarrow> Inl e
         | Inr t3 \<Rightarrow> if source t3 = ''DATAVISION'' then Inr (dv_none_rule t3) else Inr t3)"

section \<open>\<^verbatim>\<open>compare\<close>\<close>

definition column_overlap :: "dataframe \<Rightarrow> db_table \<Rightarrow> error + string" where
  "column_overlap df t =
     (case column_match_items df (primary_key t) (common_columns t) of
        Inl e \<Rightarrow> Inl e
      | Inr items \<Rightarrow> Inr (concat (map format_item items)))"

definition column_detail :: bool where
  "column_detail = True"

text \<open>The dict \<^verbatim>\<open>counts\<close> that \<^verbatim>\<open>compare\<close> hands to \<^verbatim>\<open>report\<close>, without
  the runtime.\<close>

record counts =
  tot_source :: nat
  tot_snow :: nat
  unique_source :: nat
  unique_snow :: nat
  source_duplicates :: nat
  snow_duplicates :: nat
  identical_records :: nat
  overlap_text :: string

definition compare_counts :: "db_table \<Rightarrow> error + counts" where
  "compare_counts t =
     (case merge_outer (source_df t) (snow_df t) (primary_key t) of
        Inl e \<Rightarrow> Inl e
      | Inr merged \<Rightarrow>
     (case dupes (source_df t) (primary_key t) of
        Inl e \<Rightarrow> Inl e
      | Inr source_dupes \<Rightarrow>
     (case dupes (snow_df t) (primary_key t) of
        Inl e \<Rightarrow> Inl e
      | Inr snow_dupes \<Rightarrow>
     (case (if column_detail then column_overlap (identical_df merged) t
            else Inr ''Column details not selected'') of
        Inl e \<Rightarrow> Inl e
      | Inr text \<Rightarrow>
          Inr \<lparr>tot_source = len_index (source_df t),
               tot_snow = len_index (snow_df t),
               unique_source = fst (unique_records merged),
               unique_snow = snd (unique_records merged),
               source_duplicates = fst (duplicate_records source_dupes snow_dupes),
               snow_duplicates = snd (duplicate_records source_dupes snow_dupes),
               identical_records = len_index (identical_df merged),
               overlap_text = text\<rparr>))))"

section \<open>Fixtures\<close>

text \<open>The end-to-end scenario of the specification: three source rows, two of them with
  the key 2, and two reference rows.\<close>

definition scenario_source_df :: dataframe where
  "scenario_source_df =
     \<lparr>columns = [''id'', ''val''],
      rows = [[(''id'', StrV ''1''), (''val'', StrV ''A'')],
              [(''id'', StrV ''2''), (''val'', StrV ''B'')],
              [(''id'', StrV ''2''), (''val'', StrV ''B2'')]]\<rparr>"

definition scenario_snow_df :: dataframe where
  "scenario_snow_df =
     \<lparr>columns = [''id'', ''val''],
      rows = [[(''id'', StrV ''1''), (''val'', StrV ''A'')],
              [(''id'', StrV ''3''), (''val'', StrV ''C'')]]\<rparr>"

definition scenario_merged :: dataframe where
  "scenario_merged =
     \<lparr>columns = [''id'', ''val_x'', ''val_y'', ''_merge''],
      rows = [[(''id'', StrV ''1''), (''val_x'', StrV ''A''), (''val_y'', StrV ''A''),
               (''_merge'', StrV ''both'')],
              [(''id'', StrV ''2''), (''val_x'', StrV ''B''), (''val_y'', FloatV NaN),
               (''_merge'', StrV ''left_only'')],
              [(''id'', StrV ''2''), (''val_x'', StrV ''B2''), (''val_y'', FloatV NaN),
               (''_merge'', StrV ''left_only'')],
              [(''id'', StrV ''3''), (''val_x'', FloatV NaN), (''val_y'', StrV ''C''),
               (''_merge'', StrV ''right_only'')]]\<rparr>"

definition scenario_source_dupes :: dataframe where
  "scenario_source_dupes =
     \<lparr>columns = [''id'', ''val''],
      rows = [[(''id'', StrV ''2''), (''val'', StrV ''B2'')]]\<rparr>"

text \<open>A table whose two sides both hold the key 1 twice.\<close>

definition dup_key_df :: dataframe where
  "dup_key_df =
     \<lparr>columns = [''id''],
      rows = [[(''id'', StrV ''1'')], [(''id'', StrV ''1'')]]\<rparr>"

definition dup_key_table :: db_table where
  "dup_key_table =
     \<lparr>name = ''T'', source = ''S'', column_mapping = [], column_rules = [],
      primary_key = [''id''], source_df = dup_key_df, snow_df = dup_key_df,
      common_columns = [''id'']\<rparr>"

definition dup_key_counts :: counts where
  "dup_key_counts =
     \<lparr>tot_source = 2, tot_snow = 2, unique_source = 0, unique_snow = 0,
      source_duplicates = 1, snow_duplicates = 1, identical_records = 4, overlap_text = []\<rparr>"

text \<open>A table with four keys on both sides: the column \<open>X\<close> agrees on three of the four
  matched rows, the column \<open>Y\<close> on one.\<close>

definition overlap_source_df :: dataframe where
  "overlap_source_df =
     \<lparr>columns = [''id'', ''X'', ''Y''],
      rows = [[(''id'', StrV ''1''), (''X'', StrV ''a''), (''Y'', StrV ''p'')],
              [(''id'', StrV ''2''), (''X'', StrV ''b''), (''Y'', StrV ''q'')],
              [(''id'', StrV ''3''), (''X'', StrV ''c''), (''Y'', StrV ''r'')],
              [(''id'', StrV ''4''), (''X'', StrV ''d''), (''Y'', StrV ''s'')]]\<rparr>"

definition overlap_snow_df :: dataframe where
  "overlap_snow_df =
     \<lparr>columns = [''id'', ''X'', ''Y''],
      rows = [[(''id'', StrV ''1''), (''X'', StrV ''a''), (''Y'', StrV ''p'')],
              [(''id'', StrV ''2''), (''X'', StrV ''b''), (''Y'', StrV ''Q'')],
              [(''id'', StrV ''3''), (''X'', StrV ''c''), (''Y'', StrV ''R'')],
              [(''id'', StrV ''4''), (''X'', StrV ''D''), (''Y'', StrV ''S'')]]\<rparr>"

definition overlap_table :: db_table where
  "overlap_table =
     \<lparr>name = ''T'', source = ''S'', column_mapping = [], column_rules = [],
      primary_key = [''id''], source_df = overlap_source_df, snow_df = overlap_snow_df,
      common_columns = [''id'', ''X'', ''Y'']\<rparr>"

definition overlap_counts :: counts where
  "overlap_counts =
     \<lparr>tot_source = 4, tot_snow = 4, unique_source = 0, unique_snow = 0,
      source_duplicates = 0, snow_duplicates = 0, identical_records = 4,
      overlap_text = ''Column Y = 25.0%'' @ [CHR 0x0A] @ ''Column X = 75.0%'' @ [CHR 0x0A]\<rparr>"

text \<open>A table whose two sides share no key.\<close>

definition no_match_table :: db_table where
  "no_match_table =
     \<lparr>name = ''T'', source = ''S'', column_mapping = [], column_rules = [],
      primary_key = [''id''],
      source_df = \<lparr>columns = [''id'', ''val''],
                    rows = [[(''id'', StrV ''1''), (''val'', StrV ''A'')]]\<rparr>,
      snow_df = \<lparr>columns = [''id'', ''val''],
                  rows = [[(''id'', StrV ''2''), (''val'', StrV ''B'')]]\<rparr>,
      common_columns = [''id'', ''val'']\<rparr>"

definition empty_matched_df :: dataframe where
  "empty_matched_df = \<lparr>columns = [''id'', ''val_x'', ''val_y'', ''_merge''], rows = []\<rparr>"

text \<open>Two matched rows: one whose \<open>val\<close> agrees, one whose \<open>val\<close> is null on both
  sides.\<close>

definition agree_row :: row where
  "agree_row = [(''id'', StrV ''1''), (''val_x'', StrV ''A''), (''val_y'', StrV ''A''),
                (''_merge'', StrV ''both'')]"

definition null_pair_row :: row where
  "null_pair_row = [(''id'', StrV ''2''), (''val_x'', FloatV NaN), (''val_y'', FloatV NaN),
                    (''_merge'', StrV ''both'')]"

text \<open>A table built from two CSV extracts with a timestamp column, a mapping that renames
  the source columns, and one rule.\<close>

definition orders_source_csv :: dataframe where
  "orders_source_csv =
     \<lparr>columns = [''ID'', ''VAL'', ''TSTAMP''],
      rows = [[(''ID'', StrV ''1''), (''VAL'', StrV ''Ax''), (''TSTAMP'', StrV ''t1'')]]\<rparr>"

definition orders_snow_csv :: dataframe where
  "orders_snow_csv =
     \<lparr>columns = [''id'', ''val'', ''TSTAMP''],
      rows = [[(''id'', StrV ''1''), (''val'', StrV ''A''), (''TSTAMP'', StrV ''t2'')]]\<rparr>"

definition orders_rule :: rule where
  "orders_rule = \<lparr>r_target = ''source'', r_column = ''val'', r_operation = ''strip'',
                   r_value = Present (Some (StrV ''x''))\<rparr>"

definition orders_json :: "(string \<times> table_config) list" where
  "orders_json =
     [(''ORDERS'', \<lparr>cfg_Columns = [(''ID'', ''id''), (''VAL'', ''val'')],
                    cfg_Rules = [orders_rule], cfg_PK = [''id'']\<rparr>)]"

definition orders_table :: db_table where
  "orders_table =
     \<lparr>name = ''ORDERS_2020'', source = ''S'',
      column_mapping = [(''ID'', ''id''), (''VAL'', ''val'')],
      column_rules = [orders_rule], primary_key = [''id''],
      source_df = \<lparr>columns = [''id'', ''val'', ''TSTAMP''],
                    rows = [[(''id'', StrV ''1''), (''val'', StrV ''A''),
                             (''TSTAMP'', StrV ''t1'')]]\<rparr>,
      snow_df = orders_snow_csv,
      common_columns = [''id'', ''val'']\<rparr>"

text \<open>Every entry of \<^verbatim>\<open>column_match_dict\<close> holds the percent of its column.\<close>

definition entries_ok :: "dataframe \<Rightarrow> (string \<times> pyfloat) list \<Rightarrow> bool" where
  "entries_ok df d = (\<forall>item \<in> set d.
     overlap_percent (len_index (overlap_df df (fst item))) (len_index df) = Inr (snd item))"

section \<open>Evaluation rules\<close>

lemma floor_rat_numeral_div: "\<lfloor>numeral a / numeral b :: rat\<rfloor> = numeral a div numeral b"
  by (metis floor_divide_of_int_eq of_int_numeral)

lemma floor_rat_neg_numeral_div:
  "\<lfloor>- (numeral a / numeral b) :: rat\<rfloor> = - numeral a div numeral b"
  by (metis divide_minus_left floor_divide_of_int_eq of_int_neg_numeral of_int_numeral)

lemma ceiling_rat_numeral_div:
  "\<lceil>numeral a / numeral b :: rat\<rceil> = - (- numeral a div numeral b)"
  using ceiling_divide_eq_div[of "numeral a" "numeral b", where ?'a = rat] by simp

lemma ceiling_rat_neg_numeral_div:
  "\<lceil>- (numeral a / numeral b) :: rat\<rceil> = - (numeral a div numeral b)"
  using ceiling_divide_eq_div[of "- numeral a" "numeral b", where ?'a = rat] by simp

lemmas rat_floor_simps = floor_rat_numeral_div floor_rat_neg_numeral_div
  ceiling_rat_numeral_div ceiling_rat_neg_numeral_div

lemmas float_defs = float_mul_def mk_float_def round_double_def ilog_def rhe_def pow_int_def
  compute_floorlog Let_def float_round_def int_truediv_def float_truediv_def float_of_int_def
  signed_zero_def signed_inf_def is_zero_def rat_floor_simps

lemmas parse_defs = float_of_string_def split_sign_def strip_ws_def is_space_def digitpart_def
  is_digit_def lower_char_def startswith_def parse_exponent_def nat_of_digits_def digit_val_def

lemma replicate_numeral_eval: "replicate (numeral k) x = x # replicate (pred_numeral k) x"
  by (simp add: numeral_eq_Suc)

lemmas repr_defs = repr_pos_def shortest_def pick_decimal_def decimal_digits_def digit_char_def
  shortest_from.simps digits_of_nat.simps replicate_numeral_eval

lemmas merge_eval = merge_outer_def reserved_labels_def left_rows_def right_only_rows_def
  matches_def row_key_def cell_def merged_row_def merged_columns_def merged_cells_def

lemmas select_eval = identical_df_def unique_records_def unique_source_df_def
  unique_snow_df_def select_rows_def select_mask_def len_index_def has_indicator_def
  cell_eq_def py_eq_def cell_def

section \<open>The partition of the outer join\<close>

lemma merge_label_x: "''_merge'' \<noteq> c @ ''_x''"
proof
  assume "''_merge'' = c @ ''_x''"
  then have "last ''_merge'' = last (c @ ''_x'')" by simp
  then show False by simp
qed

lemma merge_label_y: "''_merge'' \<noteq> c @ ''_y''"
proof
  assume "''_merge'' = c @ ''_y''"
  then have "last ''_merge'' = last (c @ ''_y'')" by simp
  then show False by simp
qed

lemma map_of_zip_last:
  "length xs = length ys \<Longrightarrow> k \<notin> set xs \<Longrightarrow> map_of (zip (xs @ [k]) (ys @ [v])) k = Some v"
  by (induction xs ys rule: list_induct2) auto

lemma merged_row_indicator:
  assumes "''_merge'' \<notin> set (columns left) \<union> set (columns right)"
  shows "cell (merged_row left right on l r) ''_merge'' =
     StrV (case (l, r) of (Some _, Some _) \<Rightarrow> ''both''
                          | (Some _, None) \<Rightarrow> ''left_only''
                          | _ \<Rightarrow> ''right_only'')"
proof -
  let ?A = "map (\<lambda>c. if c \<in> set on then c
              else if c \<in> set (columns right) then c @ ''_x'' else c) (columns left)
     @ map (\<lambda>c. if c \<in> set (columns left) then c @ ''_y'' else c)
         (filter (\<lambda>c. c \<notin> set on) (columns right))"
  let ?B = "map (\<lambda>c. case l of Some lr \<Rightarrow> cell lr c
               | None \<Rightarrow> (if c \<in> set on
                          then (case r of Some rr \<Rightarrow> cell rr c | None \<Rightarrow> FloatV NaN)
                          else FloatV NaN)) (columns left)
     @ map (\<lambda>c. case r of Some rr \<Rightarrow> cell rr c | None \<Rightarrow> FloatV NaN)
         (filter (\<lambda>c. c \<notin> set on) (columns right))"
  have len: "length ?A = length ?B" by simp
  have notin: "''_merge'' \<notin> set ?A"
    using assms merge_label_x merge_label_y by (auto split: if_splits)
  have "merged_row left right on l r = zip (?A @ [''_merge'']) (?B @ [StrV (case (l, r) of (Some _, Some _) \<Rightarrow> ''both''
                          | (Some _, None) \<Rightarrow> ''left_only''
                          | _ \<Rightarrow> ''right_only'')])"
    by (simp add: merged_row_def merged_columns_def merged_cells_def)
  then show ?thesis
    using map_of_zip_last[OF len notin] by (simp add: cell_def)
qed

lemma cell_eq_str: "cell_eq (StrV a) (StrV b) = (a = b)"
  by (simp add: cell_eq_def py_eq_def)

lemma length_filter_concat_map:
  "length (filter P (concat (map f xs))) = sum_list (map (\<lambda>x. length (filter P (f x))) xs)"
  by (induction xs) auto

lemma has_indicator_merged_row:
  assumes "''_merge'' \<notin> set (columns left) \<union> set (columns right)"
  shows "has_indicator s (merged_row left right on (Some l) (Some r)) = (s = ''both'')"
    and "has_indicator s (merged_row left right on (Some l) None) = (s = ''left_only'')"
    and "has_indicator s (merged_row left right on None (Some r)) = (s = ''right_only'')"
  using merged_row_indicator[OF assms] by (auto simp: has_indicator_def cell_eq_str)

lemma filter_left_rows_both:
  assumes "''_merge'' \<notin> set (columns left) \<union> set (columns right)"
  shows "length (filter (has_indicator ''both'') (left_rows left right on l)) = length (matches on l (rows right))"
  using has_indicator_merged_row[OF assms] by (simp add: left_rows_def)

lemma filter_left_rows_left_only:
  assumes "''_merge'' \<notin> set (columns left) \<union> set (columns right)"
  shows "length (filter (has_indicator ''left_only'') (left_rows left right on l))
     = (if matches on l (rows right) = [] then 1 else 0)"
  using has_indicator_merged_row[OF assms] by (simp add: left_rows_def)

lemma filter_left_rows_right_only:
  assumes "''_merge'' \<notin> set (columns left) \<union> set (columns right)"
  shows "filter (has_indicator ''right_only'') (left_rows left right on l) = []"
  using has_indicator_merged_row[OF assms] by (simp add: left_rows_def)

lemma filter_right_only_rows:
  assumes "''_merge'' \<notin> set (columns left) \<union> set (columns right)"
  shows "filter (has_indicator ''both'') (right_only_rows left right on) = []"
    and "filter (has_indicator ''left_only'') (right_only_rows left right on) = []"
    and "length (filter (has_indicator ''right_only'') (right_only_rows left right on))
       = length (filter (\<lambda>r. matches on r (rows left) = []) (rows right))"
  using has_indicator_merged_row[OF assms] by (simp_all add: right_only_rows_def)

lemma merge_outer_Inr:
  assumes "merge_outer left right on = Inr m"
  shows "''_merge'' \<notin> set (columns left) \<union> set (columns right)"
    and "rows m = concat (map (left_rows left right on) (rows left)) @ right_only_rows left right on"
    and "on \<noteq> []" and "set on \<subseteq> set (columns left) \<inter> set (columns right)"
  using assms by (auto simp: merge_outer_def reserved_labels_def split: if_splits)

lemma sum_if_length_filter:
  "sum_list (map (\<lambda>x. if P x then 1 else 0) xs) = length (filter P xs)"
  by (induction xs) auto

lemma identical_count:
  assumes "merge_outer left right on = Inr m"
  shows "len_index (identical_df m) = sum_list (map (\<lambda>l. length (matches on l (rows right))) (rows left))"
  using merge_outer_Inr[OF assms] filter_left_rows_both filter_right_only_rows(1)
  by (simp add: len_index_def identical_df_def select_rows_def 
      length_filter_concat_map)

lemma unique_source_count:
  assumes "merge_outer left right on = Inr m"
  shows "fst (unique_records m) = length (filter (\<lambda>l. matches on l (rows right) = []) (rows left))"
  using merge_outer_Inr[OF assms] filter_left_rows_left_only filter_right_only_rows(2)
  by (simp add: len_index_def unique_records_def unique_source_df_def select_rows_def 
      length_filter_concat_map sum_if_length_filter)

lemma unique_snow_count:
  assumes "merge_outer left right on = Inr m"
  shows "snd (unique_records m) = length (filter (\<lambda>r. matches on r (rows left) = []) (rows right))"
  using merge_outer_Inr[OF assms] filter_left_rows_right_only filter_right_only_rows(3)
  by (simp add: len_index_def unique_records_def unique_snow_df_def select_rows_def 
      filter_concat)

lemma sum_plus_zeros_ge:
  fixes c :: "'a \<Rightarrow> nat"
  shows "length xs \<le> sum_list (map c xs) + length (filter (\<lambda>x. c x = 0) xs)"
  by (induction xs) auto

lemma sum_plus_zeros_eq_iff:
  fixes c :: "'a \<Rightarrow> nat"
  shows "(sum_list (map c xs) + length (filter (\<lambda>x. c x = 0) xs) = length xs)
     \<longleftrightarrow> (\<forall>x \<in> set xs. c x \<le> 1)"
proof (induction xs)
  case Nil
  then show ?case by simp
next
  case (Cons a xs)
  have ge: "length xs \<le> sum_list (map c xs) + length (filter (\<lambda>x. c x = 0) xs)"
    by (rule sum_plus_zeros_ge)
  show ?case
  proof (cases "c a = 0")
    case True
    with Cons show ?thesis by simp
  next
    case False
    with Cons ge show ?thesis by auto
  qed
qed

lemma matches_swap_count:
  "sum_list (map (\<lambda>l. length (matches on l rs)) ls)
   = sum_list (map (\<lambda>r. length (matches on r ls)) rs)"
proof (induction ls)
  case Nil
  then show ?case by (simp add: matches_def)
next
  case (Cons a ls)
  have "length (matches on a rs) = sum_list (map (\<lambda>r. if row_key on a = row_key on r then 1 else 0) rs)"
    by (induction rs) (auto simp: matches_def)
  moreover have "sum_list (map (\<lambda>r. length (matches on r (a # ls))) rs)
      = sum_list (map (\<lambda>r. if row_key on a = row_key on r then 1 else 0) rs)
        + sum_list (map (\<lambda>r. length (matches on r ls)) rs)"
    by (induction rs) (auto simp: matches_def)
  ultimately show ?case using Cons by simp
qed

text \<open>
  Claim C1, as the code has it.  The merge is key-only and pairs every source row with
  every reference row of the same key, so the matched rows count pairs.  For a merge
  that succeeds, \<open>|matched| + |source-only| = |source_dataset|\<close> holds exactly when
  no source row has its key on more than one reference row, and
  \<open>|matched| + |reference-only| = |reference_dataset|\<close> exactly when no reference
  row has its key on more than one source row.  With a key duplicated on the other side
  the sums exceed the sizes of the datasets.
\<close>

theorem merge_partition_counts:
  assumes "merge_outer src snow pk = Inr m"
  shows "(len_index (identical_df m) + fst (unique_records m) = len_index src
           \<longleftrightarrow> (\<forall>l \<in> set (rows src). length (matches pk l (rows snow)) \<le> 1))
       \<and> (len_index (identical_df m) + snd (unique_records m) = len_index snow
           \<longleftrightarrow> (\<forall>r \<in> set (rows snow). length (matches pk r (rows src)) \<le> 1))"
proof -
  have a: "len_index (identical_df m)
      = sum_list (map (\<lambda>l. length (matches pk l (rows snow))) (rows src))"
    by (rule identical_count[OF assms])
  have b: "len_index (identical_df m)
      = sum_list (map (\<lambda>r. length (matches pk r (rows src))) (rows snow))"
    by (simp add: a matches_swap_count)
  have l: "fst (unique_records m)
      = length (filter (\<lambda>l. length (matches pk l (rows snow)) = 0) (rows src))"
    by (simp add: unique_source_count[OF assms])
  have r: "snd (unique_records m)
      = length (filter (\<lambda>r. length (matches pk r (rows src)) = 0) (rows snow))"
    by (simp add: unique_snow_count[OF assms])
  have "len_index (identical_df m) + fst (unique_records m) = len_index src
           \<longleftrightarrow> (\<forall>l \<in> set (rows src). length (matches pk l (rows snow)) \<le> 1)"
    using sum_plus_zeros_eq_iff[of "\<lambda>l. length (matches pk l (rows snow))" "rows src"] a l
    by (simp add: len_index_def)
  moreover have "len_index (identical_df m) + snd (unique_records m) = len_index snow
           \<longleftrightarrow> (\<forall>r \<in> set (rows snow). length (matches pk r (rows src)) \<le> 1)"
    using sum_plus_zeros_eq_iff[of "\<lambda>r. length (matches pk r (rows src))" "rows snow"] b r
    by (simp add: len_index_def)
  ultimately show ?thesis by blast
qed

theorem merge_partition_counts_witness:
  "merge_outer scenario_source_df scenario_snow_df [''id''] = Inr scenario_merged
   \<and> len_index (identical_df scenario_merged) + fst (unique_records scenario_merged)
       = len_index scenario_source_df
   \<and> len_index (identical_df scenario_merged) + snd (unique_records scenario_merged)
       = len_index scenario_snow_df"
proof -
  have m: "merge_outer scenario_source_df scenario_snow_df [''id''] = Inr scenario_merged"
    by (simp add: merge_eval scenario_source_df_def scenario_snow_df_def scenario_merged_def)
  have l: "\<forall>l \<in> set (rows scenario_source_df).
      length (matches [''id''] l (rows scenario_snow_df)) \<le> 1"
    by (simp add: scenario_source_df_def scenario_snow_df_def matches_def row_key_def cell_def)
  have r: "\<forall>r \<in> set (rows scenario_snow_df).
      length (matches [''id''] r (rows scenario_source_df)) \<le> 1"
    by (simp add: scenario_source_df_def scenario_snow_df_def matches_def row_key_def cell_def)
  from merge_partition_counts[OF m] l r m show ?thesis by blast
qed

text \<open>Claim C1 as stated fails where both sides hold a key twice: four matched rows
  against two source rows.\<close>

theorem merge_partition_counterexample:
  "compare_counts dup_key_table = Inr dup_key_counts
   \<and> identical_records dup_key_counts + unique_source dup_key_counts
       \<noteq> tot_source dup_key_counts"
  by (simp add: compare_counts_def dup_key_table_def dup_key_df_def dup_key_counts_def merge_eval
      select_eval dupes_def duplicated_def duplicate_records_def column_detail_def
      column_overlap_def column_match_items_def sorted_items_def)

section \<open>Duplicate detection\<close>

lemma length_dup_mask: "length (dup_mask seen ks) = length ks"
  by (induction ks arbitrary: seen) auto

lemma dup_mask_nth:
  "i < length ks \<Longrightarrow> dup_mask seen ks ! i \<longleftrightarrow> ks ! i \<in> set seen \<union> set (take i ks)"
proof (induction ks arbitrary: seen i)
  case Nil
  then show ?case by simp
next
  case (Cons k ks)
  show ?case
  proof (cases i)
    case 0
    then show ?thesis by simp
  next
    case (Suc j)
    with Cons.prems have "j < length ks" by simp
    from Cons.IH[OF this, of "k # seen"] Suc show ?thesis by auto
  qed
qed

lemma dup_mask_count:
  "length (filter id (dup_mask seen ks)) + card (set seen \<union> set ks) = length ks + card (set seen)"
proof (induction ks arbitrary: seen)
  case Nil
  then show ?case by simp
next
  case (Cons k ks)
  have eq: "set seen \<union> set (k # ks) = set (k # seen) \<union> set ks" by auto
  show ?case
  proof (cases "k \<in> set seen")
    case True
    then have "card (set (k # seen)) = card (set seen)" by (simp add: insert_absorb)
    with Cons[of "k # seen"] True show ?thesis unfolding eq by simp
  next
    case False
    then have "card (set (k # seen)) = Suc (card (set seen))" by simp
    with Cons[of "k # seen"] False show ?thesis unfolding eq by simp
  qed
qed

lemma select_mask_len:
  "length bs = length (rows df) \<Longrightarrow> len_index (select_mask df bs) = length (filter id bs)"
proof -
  have "\<And>xs::row list. length bs = length xs \<Longrightarrow> length (filter snd (zip xs bs)) = length (filter id bs)"
  proof -
    fix xs :: "row list"
    assume "length bs = length xs"
    then show "length (filter snd (zip xs bs)) = length (filter id bs)"
      by (induction bs xs rule: list_induct2) auto
  qed
  then show "length bs = length (rows df) \<Longrightarrow> len_index (select_mask df bs) = length (filter id bs)"
    by (simp add: select_mask_def len_index_def)
qed

text \<open>
  Claim C2, as the code has it.  \<^verbatim>\<open>duplicated\<close> with its default
  \<^verbatim>\<open>keep='first'\<close> looks at one side only and flags a row exactly when its
  primary-key value is the key of an earlier row of the same side: of the rows that share
  a key, all but the first are flagged, so the flagged rows and the distinct keys add up
  to the size of the dataset.
\<close>

theorem duplicated_flags_later_occurrences:
  assumes "duplicated df pk = Inr bs"
  shows "length bs = length (rows df)
     \<and> (\<forall>i < length (rows df).
           bs ! i \<longleftrightarrow> (\<exists>j < i. row_key pk (rows df ! j) = row_key pk (rows df ! i)))
     \<and> len_index (select_mask df bs) + card (row_key pk ` set (rows df)) = length (rows df)"
proof (cases "rows df = []")
  case True
  with assms show ?thesis by (simp add: duplicated_def select_mask_def len_index_def)
next
  case False
  let ?ks = "map (row_key pk) (rows df)"
  from assms False have bs: "bs = dup_mask [] ?ks"
    by (simp add: duplicated_def split: if_splits)
  have len: "length bs = length (rows df)" by (simp add: bs length_dup_mask)
  have nth: "bs ! i \<longleftrightarrow> (\<exists>j < i. row_key pk (rows df ! j) = row_key pk (rows df ! i))"
    if "i < length (rows df)" for i
  proof -
    from that have "bs ! i \<longleftrightarrow> ?ks ! i \<in> set (take i ?ks)"
      using dup_mask_nth[of i ?ks "[]"] by (simp add: bs)
    also have "\<dots> \<longleftrightarrow> (\<exists>j < i. ?ks ! j = ?ks ! i)"
      using that by (auto simp: in_set_conv_nth)
    also have "\<dots> \<longleftrightarrow> (\<exists>j < i. row_key pk (rows df ! j) = row_key pk (rows df ! i))"
      using that by auto
    finally show ?thesis .
  qed
  have cnt: "len_index (select_mask df bs) + card (row_key pk ` set (rows df)) = length (rows df)"
    using dup_mask_count[of "[]" ?ks] select_mask_len[OF len] by (simp add: bs)
  from len nth cnt show ?thesis by blast
qed

theorem duplicated_flags_later_occurrences_witness:
  "duplicated scenario_source_df [''id''] = Inr [False, False, True]
   \<and> len_index (select_mask scenario_source_df [False, False, True])
       + card (row_key [''id''] ` set (rows scenario_source_df))
       = length (rows scenario_source_df)"
proof -
  have d: "duplicated scenario_source_df [''id''] = Inr [False, False, True]"
    by (simp add: duplicated_def scenario_source_df_def row_key_def cell_def)
  from duplicated_flags_later_occurrences[OF d] d show ?thesis by blast
qed

text \<open>Claim C2 as stated fails on its own example: of the two rows with \<open>id = 2\<close>
  only the second is among the source duplicates.\<close>

theorem duplicated_both_rows_counterexample:
  "dupes scenario_source_df [''id''] = Inr scenario_source_dupes
   \<and> [(''id'', StrV ''2''), (''val'', StrV ''B'')] \<notin> set (rows scenario_source_dupes)
   \<and> len_index scenario_source_dupes = 1"
  by (simp add: dupes_def duplicated_def scenario_source_df_def scenario_source_dupes_def
      row_key_def cell_def select_mask_def len_index_def)

section \<open>The rules on single values\<close>

lemma py_eq_nan [simp]: "py_eq x (FloatV NaN) = False"
  by (simp add: py_eq_def)

lemma none_rule_nan: "none_rule (FloatV NaN) = FloatV NaN"
  by (simp add: none_rule_def startswith_def)

lemma none_rule_cases: "none_rule x = FloatV NaN \<or> none_rule x = x"
  by (simp add: none_rule_def)

text \<open>
  Claim C9.  \<^verbatim>\<open>none_rule\<close> (the operation \<open>normalize_null\<close>) is idempotent: on
  every cell value, applying it twice gives what applying it once gives.
\<close>

theorem none_rule_idempotent: "none_rule (none_rule x) = none_rule x"
  using none_rule_cases[of x] none_rule_nan by auto

text \<open>
  Claim C6.  \<^verbatim>\<open>cast_int\<close> strips the leading zeros of a string and parses the rest,
  giving 0 for an empty or non-numeric rest: \<open>''007''\<close> gives 7, the empty string and
  \<open>''abc''\<close> give 0.  On the null marker \<^verbatim>\<open>np.nan\<close> the guard
  \<^verbatim>\<open>x == np.nan\<close> is false, as it is on every value, and \<^verbatim>\<open>x.lstrip\<close> raises
  \<^verbatim>\<open>AttributeError\<close>: no 0 is returned.
\<close>

theorem cast_int_examples:
  "cast_int (StrV ''007'') = Inr (IntV 7)
   \<and> cast_int (StrV []) = Inr (IntV 0)
   \<and> cast_int (StrV ''abc'') = Inr (IntV 0)
   \<and> cast_int (FloatV NaN) = Inl AttributeError"
  by (simp add: cast_int_def lstrip_zero_def isnumeric_def is_digit_def nat_of_digits_def
      digit_val_def)

text \<open>
  Claim C7.  \<^verbatim>\<open>round_rule\<close> turns the token \<open>''None''\<close> into 0 and rounds the
  float of any other value: with the parameter 2, \<open>''None''\<close> gives \<open>0.0\<close> and
  \<open>''3.14159''\<close> gives the float \<open>3.14\<close>.  On the null marker \<^verbatim>\<open>np.nan\<close> the
  guard \<^verbatim>\<open>x == np.nan\<close> is false, and the result is \<^verbatim>\<open>round(nan, 2)\<close>, that is
  NaN, not \<open>0.0\<close>.
\<close>

theorem round_rule_examples:
  "round_rule (StrV ''None'') (Some (IntV 2)) = Inr (FloatV (Fin 0))
   \<and> round_rule (StrV ''3.14159'') (Some (IntV 2))
       = Inr (FloatV (Fin (7070651414971679 / 2251799813685248)))
   \<and> py_float (StrV ''3.14'') = Inr (Fin (7070651414971679 / 2251799813685248))
   \<and> round_rule (FloatV NaN) (Some (IntV 2)) = Inr (FloatV NaN)"
proof -
  have a: "round_rule (StrV ''None'') (Some (IntV 2)) = Inr (FloatV (Fin 0))"
    by (simp add: round_rule_def py_eq_def float_defs)
  have b: "float_of_string ''3.14159'' = Inr (Fin (3537115888337719 / 1125899906842624))"
    by (simp add: parse_defs float_defs)
  have c: "float_round (Fin (3537115888337719 / 1125899906842624)) 2
      = Inr (Fin (7070651414971679 / 2251799813685248))"
    by (simp add: float_defs)
  have d: "float_of_string ''3.14'' = Inr (Fin (7070651414971679 / 2251799813685248))"
    by (simp add: parse_defs float_defs)
  have e: "round_rule (FloatV NaN) (Some (IntV 2)) = Inr (FloatV NaN)"
    by (simp add: round_rule_def py_eq_def float_round_def)
  have f: "round_rule (StrV ''3.14159'') (Some (IntV 2))
      = Inr (FloatV (Fin (7070651414971679 / 2251799813685248)))"
    by (simp add: round_rule_def py_eq_def b c)
  show ?thesis
    by (simp only: a d e f py_float.simps)
qed

section \<open>Bounds of the binary64 operations\<close>

lemma rhe_of_int: "rhe (of_int n) = n"
  by (simp add: rhe_def)

lemma rhe_mono: "x \<le> y \<Longrightarrow> rhe x \<le> rhe y"
proof -
  assume xy: "x \<le> y"
  have fx: "\<lfloor>x\<rfloor> \<le> rhe x" "rhe x \<le> \<lfloor>x\<rfloor> + 1" and fy: "\<lfloor>y\<rfloor> \<le> rhe y"
    by (simp_all add: rhe_def Let_def)
  show ?thesis
  proof (cases "\<lfloor>x\<rfloor> < \<lfloor>y\<rfloor>")
    case True
    with fx fy show ?thesis by linarith
  next
    case False
    with xy have eq: "\<lfloor>x\<rfloor> = \<lfloor>y\<rfloor>" using floor_mono[of x y] by linarith
    with xy show ?thesis by (auto simp: rhe_def Let_def)
  qed
qed

lemma rhe_le: "x \<le> of_int n \<Longrightarrow> rhe x \<le> n"
  using rhe_mono[of x "of_int n"] by (simp add: rhe_of_int)

lemma rhe_ge: "of_int n \<le> x \<Longrightarrow> n \<le> rhe x"
  using rhe_mono[of "of_int n" x] by (simp add: rhe_of_int)

lemma ilog2_le: "0 < x \<Longrightarrow> x < 2 ^ (k + 1) \<Longrightarrow> ilog 2 x \<le> int k"
proof (cases "1 \<le> x")
  case False
  then show ?thesis by (simp add: ilog_def)
next
  case True
  assume "x < 2 ^ (k + 1)"
  then have "of_int \<lfloor>x\<rfloor> < (2 :: rat) ^ (k + 1)"
    using of_int_floor_le[of x] by linarith
  then have "\<lfloor>x\<rfloor> < 2 ^ (k + 1)"
    by (metis of_int_less_iff of_int_numeral of_int_power)
  moreover from True have "0 \<le> \<lfloor>x\<rfloor>" by simp
  ultimately have "int (nat \<lfloor>x\<rfloor>) < int (2 ^ (k + 1))" by simp
  then have "nat \<lfloor>x\<rfloor> < 2 ^ (k + 1)"
    by (simp only: of_nat_less_iff)
  then have "floorlog 2 (nat \<lfloor>x\<rfloor>) \<le> k + 1"
    by (intro floorlog_leI) simp_all
  with True show ?thesis by (simp add: ilog_def)
qed

text \<open>The spacing of the floats near a positive \<open>x\<close> below \<open>2 ^ (53 - j)\<close> is the
  reciprocal of a power of two that is at least \<open>2 ^ j\<close>.\<close>

lemma unit_of:
  assumes "0 < x" "x < 2 ^ (53 - j)" "j \<le> 52"
  shows "\<exists>N. j \<le> N \<and> round_double x = of_int (rhe (x * 2 ^ N)) / 2 ^ N"
proof -
  let ?e = "max (ilog 2 \<bar>x\<bar>) (- 1022)"
  from assms(3) have "53 - j = (52 - j) + 1" by simp
  with assms have "ilog 2 x \<le> int (52 - j)"
    using ilog2_le[of x "52 - j"] by simp
  with assms have e: "?e \<le> 52 - int j" by simp
  define N where "N = nat (52 - ?e)"
  from e have N: "j \<le> N" and eN: "?e - 52 = - int N" "?e - 52 \<le> 0"
    by (auto simp: N_def)
  have u: "pow_int 2 (?e - 52) = 1 / 2 ^ N"
  proof (cases "N = 0")
    case True
    with eN show ?thesis by (simp add: pow_int_def)
  next
    case False
    with eN have "\<not> 0 \<le> ?e - 52" by linarith
    then show ?thesis using eN by (simp add: pow_int_def)
  qed
  from assms have "round_double x = of_int (rhe (x / pow_int 2 (?e - 52))) * pow_int 2 (?e - 52)"
    by (simp add: round_double_def Let_def)
  then have "round_double x = of_int (rhe (x * 2 ^ N)) / 2 ^ N"
    by (simp add: u)
  with N show ?thesis by blast
qed

lemma round_double_le_int:
  assumes "0 < x" "x < 2 ^ 53" "x \<le> of_int m"
  shows "round_double x \<le> of_int m"
proof -
  from unit_of[of x 0] assms obtain N where
    r: "round_double x = of_int (rhe (x * 2 ^ N)) / 2 ^ N" by auto
  from assms have "x * 2 ^ N \<le> of_int (m * 2 ^ N)" by simp
  then have "rhe (x * 2 ^ N) \<le> m * 2 ^ N" by (rule rhe_le)
  then have "(of_int (rhe (x * 2 ^ N)) :: rat) \<le> of_int (m * 2 ^ N)"
    by (simp only: of_int_le_iff)
  then show ?thesis by (simp add: r divide_le_eq)
qed

lemma round_double_ge_int:
  assumes "0 < x" "x < 2 ^ 53" "of_int m \<le> x"
  shows "of_int m \<le> round_double x"
proof -
  from unit_of[of x 0] assms obtain N where
    r: "round_double x = of_int (rhe (x * 2 ^ N)) / 2 ^ N" by auto
  from assms have "of_int (m * 2 ^ N) \<le> x * 2 ^ N" by simp
  then have "m * 2 ^ N \<le> rhe (x * 2 ^ N)" by (rule rhe_ge)
  then have "(of_int (m * 2 ^ N) :: rat) \<le> of_int (rhe (x * 2 ^ N))"
    by (simp only: of_int_le_iff)
  then show ?thesis by (simp add: r le_divide_eq)
qed

lemma round_double_exact:
  assumes "0 < x" "x < 2 ^ (53 - j)" "j \<le> 52" "x * 2 ^ j = of_int n"
  shows "round_double x = x"
proof -
  from unit_of[OF assms(1-3)] obtain N where
    N: "j \<le> N" and r: "round_double x = of_int (rhe (x * 2 ^ N)) / 2 ^ N" by auto
  from N have "(2 :: rat) ^ N = 2 ^ j * 2 ^ (N - j)"
    by (simp add: power_add[symmetric])
  then have "x * 2 ^ N = of_int (n * 2 ^ (N - j))"
    using assms(4) by (simp add: mult.assoc[symmetric])
  then have "of_int (rhe (x * 2 ^ N)) = x * 2 ^ N"
    by (simp only: rhe_of_int)
  then show ?thesis by (simp add: r)
qed

lemma round_double_range:
  assumes "0 \<le> x" "x \<le> of_int m" "m \<le> 2 ^ 52"
  shows "0 \<le> round_double x \<and> round_double x \<le> of_int m"
proof (cases "x = 0")
  case True
  with assms show ?thesis by (simp add: round_double_def)
next
  case False
  with assms have pos: "0 < x" by simp
  from assms have "x \<le> 2 ^ 52"
    by (metis of_int_le_iff of_int_numeral of_int_power order_trans)
  then have lt: "x < 2 ^ 53" by (rule order_le_less_trans) simp
  from round_double_ge_int[of x 0] pos lt have "0 \<le> round_double x" by simp
  with round_double_le_int[OF pos lt assms(2)] show ?thesis by simp
qed

lemma mk_float_range:
  assumes "0 \<le> x" "x \<le> of_int m" "m \<le> 2 ^ 52"
  shows "\<exists>q. mk_float False x = Fin q \<and> 0 \<le> q \<and> q \<le> of_int m \<and> q = round_double x"
proof -
  from round_double_range[OF assms] have r: "0 \<le> round_double x" "round_double x \<le> of_int m"
    by simp_all
  from assms(3) have "(of_int m :: rat) \<le> 2 ^ 52"
    by (metis of_int_le_iff of_int_numeral of_int_power)
  also have "\<dots> < 2 ^ 1024" by simp
  finally have "round_double x < 2 ^ 1024" using r by simp
  with r show ?thesis by (auto simp: mk_float_def Let_def)
qed

section \<open>The column overlap\<close>

lemma overlap_percent_formula:
  assumes "0 < n" "k \<le> n"
  shows "\<exists>p. overlap_percent k n = Inr (Fin p) \<and> 0 \<le> p \<and> p \<le> 100
     \<and> p = round_double
           (round_double (of_int (rhe (round_double (of_nat k / of_nat n) * 100)) / 100) * 100)"
proof -
  let ?x = "of_nat k / of_nat n :: rat"
  from assms have x: "0 \<le> ?x" "?x \<le> of_int 1" by simp_all
  from mk_float_range[OF x] obtain q where
    q: "mk_float False ?x = Fin q" "0 \<le> q" "q \<le> 1" "q = round_double ?x" by auto
  from assms q have d: "int_truediv (int k) (int n) = Inr (Fin q)"
    by (simp add: int_truediv_def)
  let ?h = "rhe (\<bar>q\<bar> * 100)"
  from q have "of_int 0 \<le> \<bar>q\<bar> * 100" "\<bar>q\<bar> * 100 \<le> of_int 100" by simp_all
  then have h: "0 \<le> ?h" "?h \<le> 100" by (simp_all only: rhe_ge rhe_le)
  then have y: "0 \<le> (of_int ?h / 100 :: rat)" "(of_int ?h / 100 :: rat) \<le> of_int 1" by simp_all
  from round_double_range[OF y] have r: "0 \<le> round_double (of_int ?h / 100)"
    "round_double (of_int ?h / 100) \<le> 1" by simp_all
  have "(1 :: rat) < 2 ^ 1024" by simp
  with r have small: "\<not> 2 ^ 1024 \<le> round_double (of_int ?h / 100)" by linarith
  define r' where "r' = round_double (of_int ?h / 100)"
  from r small q have f: "float_round (Fin q) 2 = Inr (Fin r')"
    by (auto simp: float_round_def pow_int_def Let_def signed_zero_def r'_def)
  from r have z: "0 \<le> r' * 100" "r' * 100 \<le> of_int 100" by (simp_all add: r'_def)
  from mk_float_range[OF z] obtain p where
    p: "mk_float False (r' * 100) = Fin p" "0 \<le> p" "p \<le> 100" "p = round_double (r' * 100)"
    by auto
  from r have "\<not> r' < 0" by (simp add: r'_def)
  with p have m: "float_mul (Fin r') (Fin 100) = Fin p"
    by (simp add: float_mul_def)
  from q(2) have "\<bar>q\<bar> = q" by simp
  with d f m p q show ?thesis
    by (simp add: overlap_percent_def r'_def)
qed

lemma overlap_percent_zero: "overlap_percent k 0 = Inl ZeroDivisionError"
  by (simp add: overlap_percent_def int_truediv_def)

lemma overlap_df_le: "len_index (overlap_df df c) \<le> len_index df"
  by (simp add: overlap_df_def select_rows_def len_index_def)

lemma dict_set_keys: "fst ` set (dict_set k v d) = insert k (fst ` set d)"
proof (induction d)
  case Nil
  then show ?case by simp
next
  case (Cons a d)
  show ?case
  proof (cases "fst a = k")
    case True
    then show ?thesis by (cases a) auto
  next
    case False
    then show ?thesis using Cons by (cases a) auto
  qed
qed

lemma dict_set_distinct: "distinct (map fst d) \<Longrightarrow> distinct (map fst (dict_set k v d))"
proof (induction d)
  case Nil
  then show ?case by simp
next
  case (Cons a d)
  then show ?case using dict_set_keys[of k v d] by (cases a) auto
qed

lemma dict_set_entries: "(c, w) \<in> set (dict_set k v d) \<Longrightarrow> (c = k \<and> w = v) \<or> (c, w) \<in> set d"
  by (induction d) (auto split: if_splits)

lemma column_match_loop_step:
  assumes "column_match_loop df pk (c # cs) d = Inr d'"
  shows "(c \<in> set pk \<and> column_match_loop df pk cs d = Inr d')
     \<or> (c \<notin> set pk \<and> (\<exists>v. overlap_percent (len_index (overlap_df df c)) (len_index df) = Inr v
            \<and> column_match_loop df pk cs (dict_set c v d) = Inr d'))"
proof (cases "c \<in> set pk")
  case True
  with assms show ?thesis by simp
next
  case False
  show ?thesis
  proof (cases "overlap_percent (len_index (overlap_df df c)) (len_index df)")
    case (Inl e)
    with assms False show ?thesis by (simp split: if_splits)
  next
    case (Inr v)
    with assms False show ?thesis by (simp split: if_splits)
  qed
qed

lemma column_match_loop_keys:
  "column_match_loop df pk cs d = Inr d'
   \<Longrightarrow> fst ` set d' = fst ` set d \<union> {c \<in> set cs. c \<notin> set pk}"
proof (induction cs arbitrary: d)
  case Nil
  then show ?case by simp
next
  case (Cons c cs)
  from column_match_loop_step[OF Cons.prems] show ?case
  proof
    assume a: "c \<in> set pk \<and> column_match_loop df pk cs d = Inr d'"
    with Cons.IH[of d] show ?thesis by auto
  next
    assume "c \<notin> set pk \<and> (\<exists>v. overlap_percent (len_index (overlap_df df c)) (len_index df) = Inr v
            \<and> column_match_loop df pk cs (dict_set c v d) = Inr d')"
    then obtain v where c: "c \<notin> set pk"
      and l: "column_match_loop df pk cs (dict_set c v d) = Inr d'" by blast
    from Cons.IH[OF l] have "fst ` set d' = insert c (fst ` set d) \<union> {c \<in> set cs. c \<notin> set pk}"
      by (simp only: dict_set_keys)
    with c show ?thesis by auto
  qed
qed

lemma column_match_loop_distinct:
  "column_match_loop df pk cs d = Inr d' \<Longrightarrow> distinct (map fst d) \<Longrightarrow> distinct (map fst d')"
proof (induction cs arbitrary: d)
  case Nil
  then show ?case by simp
next
  case (Cons c cs)
  from column_match_loop_step[OF Cons.prems(1)] show ?case
  proof
    assume "c \<in> set pk \<and> column_match_loop df pk cs d = Inr d'"
    with Cons.IH[of d] Cons.prems(2) show ?thesis by blast
  next
    assume "c \<notin> set pk \<and> (\<exists>v. overlap_percent (len_index (overlap_df df c)) (len_index df) = Inr v
            \<and> column_match_loop df pk cs (dict_set c v d) = Inr d')"
    then obtain v where l: "column_match_loop df pk cs (dict_set c v d) = Inr d'" by blast
    from Cons.prems(2) have "distinct (map fst (dict_set c v d))" by (rule dict_set_distinct)
    with Cons.IH[OF l] show ?thesis by blast
  qed
qed

lemma column_match_loop_entries:
  "column_match_loop df pk cs d = Inr d' \<Longrightarrow> entries_ok df d \<Longrightarrow> entries_ok df d'"
proof (induction cs arbitrary: d)
  case Nil
  then show ?case by simp
next
  case (Cons c cs)
  from column_match_loop_step[OF Cons.prems(1)] show ?case
  proof
    assume "c \<in> set pk \<and> column_match_loop df pk cs d = Inr d'"
    with Cons.IH[of d] Cons.prems(2) show ?thesis by blast
  next
    assume "c \<notin> set pk \<and> (\<exists>v. overlap_percent (len_index (overlap_df df c)) (len_index df) = Inr v
            \<and> column_match_loop df pk cs (dict_set c v d) = Inr d')"
    then obtain v where
      v: "overlap_percent (len_index (overlap_df df c)) (len_index df) = Inr v"
      and l: "column_match_loop df pk cs (dict_set c v d) = Inr d'" by blast
    have "entries_ok df (dict_set c v d)"
      unfolding entries_ok_def
    proof
      fix item
      assume "item \<in> set (dict_set c v d)"
      then have "(fst item, snd item) \<in> set (dict_set c v d)" by simp
      from dict_set_entries[OF this] have "(fst item = c \<and> snd item = v) \<or> item \<in> set d"
        by simp
      with v Cons.prems(2)
      show "overlap_percent (len_index (overlap_df df (fst item))) (len_index df) = Inr (snd item)"
        by (auto simp: entries_ok_def)
    qed
    with Cons.IH[OF l] show ?thesis by blast
  qed
qed

lemma column_match_loop_total:
  assumes "rows df \<noteq> []"
    and "\<forall>c \<in> set cs. c \<notin> set pk \<longrightarrow>
           c @ ''_x'' \<in> set (columns df) \<and> c @ ''_y'' \<in> set (columns df)"
  shows "\<exists>d'. column_match_loop df pk cs d = Inr d'"
  using assms(2)
proof (induction cs arbitrary: d)
  case Nil
  then show ?case by simp
next
  case (Cons c cs)
  from assms(1) have n: "0 < len_index df" by (simp add: len_index_def)
  from overlap_percent_formula[OF n overlap_df_le[of df c]] obtain p where
    "overlap_percent (len_index (overlap_df df c)) (len_index df) = Inr (Fin p)" by blast
  with Cons show ?case by simp
qed

lemma column_match_loop_empty:
  assumes "rows df = []"
    and "\<forall>c \<in> set cs. c \<notin> set pk \<longrightarrow>
           c @ ''_x'' \<in> set (columns df) \<and> c @ ''_y'' \<in> set (columns df)"
  shows "column_match_loop df pk cs d =
     (if \<exists>c \<in> set cs. c \<notin> set pk then Inl ZeroDivisionError else Inr d)"
  using assms(2)
proof (induction cs arbitrary: d)
  case Nil
  then show ?case by simp
next
  case (Cons c cs)
  from assms(1) have "len_index df = 0" by (simp add: len_index_def)
  with Cons show ?case by (simp add: overlap_percent_zero)
qed

lemma sorted_items_props:
  "set (sorted_items d) = set d"
  "distinct (map fst (sorted_items d)) = distinct (map fst d)"
  "sorted (map (\<lambda>item. float_rank (snd item)) (sorted_items d))"
proof -
  show "set (sorted_items d) = set d" by (simp add: sorted_items_def)
  show "distinct (map fst (sorted_items d)) = distinct (map fst d)"
    by (simp add: sorted_items_def distinct_map)
  show "sorted (map (\<lambda>item. float_rank (snd item)) (sorted_items d))"
    by (simp add: sorted_items_def)
qed

lemma sorted_rank_fval:
  assumes "sorted (map (\<lambda>item. float_rank (snd item)) xs)"
    and "\<forall>item \<in> set xs. \<exists>p. snd item = Fin p"
  shows "sorted (map (\<lambda>item. fval (snd item)) xs)"
proof -
  from assms(1) have "sorted_wrt (\<lambda>x y. float_rank (snd x) \<le> float_rank (snd y)) xs"
    by (simp only: sorted_map)
  then have "sorted_wrt (\<lambda>x y. fval (snd x) \<le> fval (snd y)) xs"
  proof (rule sorted_wrt_mono_rel[rotated])
    fix x y
    assume "x \<in> set xs" "y \<in> set xs" "float_rank (snd x) \<le> float_rank (snd y)"
    with assms(2) obtain p q where "snd x = Fin p" "snd y = Fin q" "float_rank (snd x) \<le> float_rank (snd y)"
      by blast
    then show "fval (snd x) \<le> fval (snd y)" by simp
  qed
  then show ?thesis by (simp only: sorted_map)
qed

lemma sorted_nth_less:
  fixes f :: "'a \<Rightarrow> rat"
  assumes "sorted (map f xs)" "i < length xs" "j < length xs" "f (xs ! i) < f (xs ! j)"
  shows "i < j"
proof (rule ccontr)
  assume "\<not> i < j"
  then have "j \<le> i" by simp
  with assms(1,2) have "map f xs ! j \<le> map f xs ! i"
    by (intro sorted_nth_mono) simp_all
  with assms(2,3,4) show False by simp
qed

text \<open>
  Claim C3, as the code has it.  For a matched frame with at least one row, the analyzer
  returns, for every common column that is not in the primary key, the percent
  \<^verbatim>\<open>round(k / n, 2) * 100.0\<close>, where \<open>k\<close> counts the matched rows whose source and
  reference values are equal and \<open>n\<close> all matched rows: the float quotient is rounded to
  two decimal places first and multiplied by 100 afterwards, each step rounding to a
  float, and the percent lies between 0 and 100.  The columns are listed in ascending
  order of this percent, so a column stands after every column of lower agreement and
  before every column of higher agreement.  Three of four rows give 75.0.
\<close>

theorem column_overlap_sorted_ascending:
  assumes "rows df \<noteq> []"
    and "\<forall>c \<in> set (common_columns t). c \<notin> set (primary_key t) \<longrightarrow>
           c @ ''_x'' \<in> set (columns df) \<and> c @ ''_y'' \<in> set (columns df)"
  shows "\<exists>items.
       column_match_items df (primary_key t) (common_columns t) = Inr items
     \<and> column_overlap df t = Inr (concat (map format_item items))
     \<and> fst ` set items = {c \<in> set (common_columns t). c \<notin> set (primary_key t)}
     \<and> distinct (map fst items)
     \<and> (\<forall>item \<in> set items. \<exists>p. snd item = Fin p \<and> 0 \<le> p \<and> p \<le> 100
           \<and> p = round_double (round_double (of_int (rhe (round_double
                  (of_nat (len_index (overlap_df df (fst item))) / of_nat (len_index df)) * 100))
                  / 100) * 100))
     \<and> sorted (map (\<lambda>item. fval (snd item)) items)
     \<and> (\<forall>i j. i < length items \<and> j < length items
           \<and> fval (snd (items ! i)) < fval (snd (items ! j)) \<longrightarrow> i < j)
     \<and> overlap_percent 3 4 = Inr (Fin 75)"
proof -
  from column_match_loop_total[OF assms, of "[]"] obtain d where
    d: "column_match_loop df (primary_key t) (common_columns t) [] = Inr d" by blast
  define items where "items = sorted_items d"
  have mi: "column_match_items df (primary_key t) (common_columns t) = Inr items"
    by (simp add: column_match_items_def d items_def)
  then have co: "column_overlap df t = Inr (concat (map format_item items))"
    by (simp add: column_overlap_def)
  have keys: "fst ` set items = {c \<in> set (common_columns t). c \<notin> set (primary_key t)}"
    using column_match_loop_keys[OF d] by (simp add: items_def sorted_items_props(1))
  have dist: "distinct (map fst items)"
    using column_match_loop_distinct[OF d] by (simp add: items_def sorted_items_props(2))
  have "entries_ok df []" by (simp add: entries_ok_def)
  with column_match_loop_entries[OF d] have ok: "entries_ok df items"
    by (simp add: entries_ok_def items_def sorted_items_props(1))
  from assms(1) have n: "0 < len_index df" by (simp add: len_index_def)
  have vals: "\<exists>p. snd item = Fin p \<and> 0 \<le> p \<and> p \<le> 100
           \<and> p = round_double (round_double (of_int (rhe (round_double
                  (of_nat (len_index (overlap_df df (fst item))) / of_nat (len_index df)) * 100))
                  / 100) * 100)" if "item \<in> set items" for item
  proof -
    from ok that have
      "overlap_percent (len_index (overlap_df df (fst item))) (len_index df) = Inr (snd item)"
      by (simp add: entries_ok_def)
    with overlap_percent_formula[OF n overlap_df_le[of df "fst item"]] show ?thesis by auto
  qed
  then have fin: "\<forall>item \<in> set items. \<exists>p. snd item = Fin p" by blast
  have "sorted (map (\<lambda>item. float_rank (snd item)) items)"
    by (simp add: items_def sorted_items_props(3))
  from sorted_rank_fval[OF this fin] have srt: "sorted (map (\<lambda>item. fval (snd item)) items)" .
  have ord: "\<forall>i j. i < length items \<and> j < length items
           \<and> fval (snd (items ! i)) < fval (snd (items ! j)) \<longrightarrow> i < j"
    using sorted_nth_less[OF srt] by blast
  have ex: "overlap_percent 3 4 = Inr (Fin 75)"
    by (simp add: overlap_percent_def float_defs)
  from mi co keys dist vals srt ord ex show ?thesis by blast
qed

theorem column_overlap_sorted_ascending_witness:
  "rows (identical_df scenario_merged) \<noteq> []
   \<and> column_overlap (identical_df scenario_merged)
        \<lparr>name = ''T'', source = ''S'', column_mapping = [], column_rules = [],
         primary_key = [''id''], source_df = scenario_source_df, snow_df = scenario_snow_df,
         common_columns = [''id'', ''val'']\<rparr>
       = Inr (''Column val = 100.0%'' @ [CHR 0x0A])
   \<and> overlap_percent 3 4 = Inr (Fin 75)"
proof -
  let ?t = "\<lparr>name = ''T'', source = ''S'', column_mapping = [], column_rules = [],
         primary_key = [''id''], source_df = scenario_source_df, snow_df = scenario_snow_df,
         common_columns = [''id'', ''val'']\<rparr>"
  have r: "rows (identical_df scenario_merged) \<noteq> []"
    by (simp add: select_eval scenario_merged_def)
  have l: "\<forall>c \<in> set (common_columns ?t). c \<notin> set (primary_key ?t) \<longrightarrow>
       c @ ''_x'' \<in> set (columns (identical_df scenario_merged))
     \<and> c @ ''_y'' \<in> set (columns (identical_df scenario_merged))"
    by (simp add: select_eval scenario_merged_def)
  have v: "column_overlap (identical_df scenario_merged) ?t = Inr (''Column val = 100.0%'' @ [CHR 0x0A])"
    by (simp add: select_eval scenario_merged_def column_overlap_def column_match_items_def
        sorted_items_def overlap_percent_def overlap_df_def format_item_def float_defs repr_defs)
  from column_overlap_sorted_ascending[OF r l] r v show ?thesis by blast
qed

text \<open>Claim C3 as stated fails in its last part: the column \<open>X\<close>, which agrees on three
  of four matched rows, is listed after the column \<open>Y\<close> of lower agreement, not before
  it.\<close>

theorem column_overlap_order_counterexample:
  "compare_counts overlap_table = Inr overlap_counts
   \<and> overlap_text overlap_counts
       = ''Column Y = 25.0%'' @ [CHR 0x0A] @ ''Column X = 75.0%'' @ [CHR 0x0A]"
  by (simp add: compare_counts_def overlap_table_def overlap_source_df_def overlap_snow_df_def
      overlap_counts_def merge_eval select_eval dupes_def duplicated_def duplicate_records_def
      column_detail_def column_overlap_def column_match_items_def sorted_items_def
      overlap_percent_def overlap_df_def format_item_def float_defs repr_defs)

text \<open>
  Claim C4, as the code has it.  The analyzer has no guard and no sentinel: on an empty
  matched frame the first common column that is not in the primary key is divided
  \<^verbatim>\<open>0 / 0\<close> and \<^verbatim>\<open>ZeroDivisionError\<close> is raised.  Only when every common
  column is in the primary key is there nothing to divide, and the text is empty.
\<close>

theorem column_overlap_empty_matched:
  assumes "rows df = []"
    and "\<forall>c \<in> set (common_columns t). c \<notin> set (primary_key t) \<longrightarrow>
           c @ ''_x'' \<in> set (columns df) \<and> c @ ''_y'' \<in> set (columns df)"
  shows "((\<exists>c \<in> set (common_columns t). c \<notin> set (primary_key t))
            \<longrightarrow> column_overlap df t = Inl ZeroDivisionError)
       \<and> ((\<forall>c \<in> set (common_columns t). c \<in> set (primary_key t))
            \<longrightarrow> column_overlap df t = Inr [])"
  using column_match_loop_empty[OF assms, of "[]"]
  by (auto simp: column_overlap_def column_match_items_def sorted_items_def)

theorem column_overlap_empty_matched_witness:
  "rows empty_matched_df = []
   \<and> (\<exists>c \<in> set (common_columns no_match_table). c \<notin> set (primary_key no_match_table))
   \<and> column_overlap empty_matched_df no_match_table = Inl ZeroDivisionError"
proof -
  have r: "rows empty_matched_df = []" by (simp add: empty_matched_df_def)
  have l: "\<forall>c \<in> set (common_columns no_match_table). c \<notin> set (primary_key no_match_table) \<longrightarrow>
       c @ ''_x'' \<in> set (columns empty_matched_df) \<and> c @ ''_y'' \<in> set (columns empty_matched_df)"
    by (simp add: empty_matched_df_def no_match_table_def)
  have e: "\<exists>c \<in> set (common_columns no_match_table). c \<notin> set (primary_key no_match_table)"
    by (simp add: no_match_table_def)
  from column_overlap_empty_matched[OF r l] r e show ?thesis by blast
qed

text \<open>Claim C4 as stated fails: a comparison of two sides that share no key raises
  \<^verbatim>\<open>ZeroDivisionError\<close> in the analyzer and reports nothing.\<close>

theorem column_overlap_no_sentinel_counterexample:
  "compare_counts no_match_table = Inl ZeroDivisionError"
  by (simp add: compare_counts_def no_match_table_def merge_eval select_eval dupes_def
      duplicated_def duplicate_records_def column_detail_def column_overlap_def
      column_match_items_def sorted_items_def overlap_percent_def overlap_df_def int_truediv_def)

text \<open>
  Claim C10.  A matched row whose source value and reference value of a column are both
  the null marker is not among the agreeing rows of that column, while it counts among
  the matched rows: with the row in the frame the agreeing rows are as many as without
  it and the matched rows one more, so the ratio of the two is lower (strictly, unless no
  row agrees at all).
\<close>

theorem null_pair_is_disagreement:
  assumes "cell r (c @ ''_x'') = FloatV NaN" and "cell r (c @ ''_y'') = FloatV NaN"
  shows "r \<notin> set (rows (overlap_df (df\<lparr>rows := xs @ r # ys\<rparr>) c))
     \<and> len_index (overlap_df (df\<lparr>rows := xs @ r # ys\<rparr>) c)
         = len_index (overlap_df (df\<lparr>rows := xs @ ys\<rparr>) c)
     \<and> len_index (df\<lparr>rows := xs @ r # ys\<rparr>) = len_index (df\<lparr>rows := xs @ ys\<rparr>) + 1
     \<and> (0 < len_index (overlap_df (df\<lparr>rows := xs @ ys\<rparr>) c) \<longrightarrow>
          (of_nat (len_index (overlap_df (df\<lparr>rows := xs @ r # ys\<rparr>) c))
             / of_nat (len_index (df\<lparr>rows := xs @ r # ys\<rparr>)) :: rat)
          < of_nat (len_index (overlap_df (df\<lparr>rows := xs @ ys\<rparr>) c))
             / of_nat (len_index (df\<lparr>rows := xs @ ys\<rparr>)))"
proof -
  from assms have ne: "\<not> cell_eq (cell r (c @ ''_x'')) (cell r (c @ ''_y''))"
    by (simp add: cell_eq_def)
  then have a: "r \<notin> set (rows (overlap_df (df\<lparr>rows := xs @ r # ys\<rparr>) c))"
    by (simp add: overlap_df_def select_rows_def)
  from ne have b: "len_index (overlap_df (df\<lparr>rows := xs @ r # ys\<rparr>) c)
         = len_index (overlap_df (df\<lparr>rows := xs @ ys\<rparr>) c)"
    by (simp add: overlap_df_def select_rows_def len_index_def)
  have c: "len_index (df\<lparr>rows := xs @ r # ys\<rparr>) = len_index (df\<lparr>rows := xs @ ys\<rparr>) + 1"
    by (simp add: len_index_def)
  have d: "(of_nat k / of_nat (n + 1) :: rat) < of_nat k / of_nat n" if "0 < k" "k \<le> n" for k n :: nat
    using that by (simp add: frac_less2)
  have le: "len_index (overlap_df (df\<lparr>rows := xs @ ys\<rparr>) c) \<le> len_index (df\<lparr>rows := xs @ ys\<rparr>)"
    by (rule overlap_df_le)
  from a b c d[OF _ le] show ?thesis by simp
qed

theorem null_pair_is_disagreement_witness:
  "cell null_pair_row (''val'' @ ''_x'') = FloatV NaN
   \<and> cell null_pair_row (''val'' @ ''_y'') = FloatV NaN
   \<and> len_index (overlap_df (empty_matched_df\<lparr>rows := [agree_row] @ null_pair_row # []\<rparr>) ''val'') = 1
   \<and> len_index (empty_matched_df\<lparr>rows := [agree_row] @ null_pair_row # []\<rparr>) = 2
   \<and> overlap_percent 1 1 = Inr (Fin 100) \<and> overlap_percent 1 2 = Inr (Fin 50)"
proof -
  have x: "cell null_pair_row (''val'' @ ''_x'') = FloatV NaN"
    and y: "cell null_pair_row (''val'' @ ''_y'') = FloatV NaN"
    by (simp_all add: null_pair_row_def cell_def)
  have k: "len_index (overlap_df (empty_matched_df\<lparr>rows := [agree_row] @ []\<rparr>) ''val'') = 1"
    by (simp add: overlap_df_def select_rows_def len_index_def agree_row_def cell_def
        cell_eq_def py_eq_def)
  have n: "len_index (empty_matched_df\<lparr>rows := [agree_row] @ []\<rparr>) = 1"
    by (simp add: len_index_def)
  have p: "overlap_percent 1 1 = Inr (Fin 100)" "overlap_percent 1 2 = Inr (Fin 50)"
    by (simp_all add: overlap_percent_def float_defs)
  from null_pair_is_disagreement[OF x y, where df = empty_matched_df and xs = "[agree_row]"
      and ys = "[]"] x y k n p
  show ?thesis by simp
qed

end
